theory Spec2Isabelle
  imports Complex_Main "HOL-Library.Sublist" "HOL-Library.Log_Nat"
begin

section \<open>Runtime values\<close>

text \<open>
  A JavaScript number is idealised as an exact rational, with the three special values
  kept apart; binary rounding is not part of the model. Comparisons involving
  \<open>NaN\<close> are false, as in the language.
\<close>

datatype jsnum = NaN | NegInf | Fin rat | PosInf

fun js_lt :: "jsnum \<Rightarrow> jsnum \<Rightarrow> bool" where
  "js_lt NaN _ = False"
| "js_lt _ NaN = False"
| "js_lt (Fin x) (Fin y) = (x < y)"
| "js_lt NegInf NegInf = False"
| "js_lt NegInf _ = True"
| "js_lt _ NegInf = False"
| "js_lt PosInf _ = False"
| "js_lt _ PosInf = True"

definition js_gt :: "jsnum \<Rightarrow> jsnum \<Rightarrow> bool" where
  "js_gt a b = js_lt b a"

text \<open>\<open>Number.isNaN\<close> and \<open>Number.isInteger\<close>.\<close>

fun isNaN :: "jsnum \<Rightarrow> bool" where
  "isNaN NaN = True"
| "isNaN _ = False"

fun isInteger :: "jsnum \<Rightarrow> bool" where
  "isInteger (Fin r) = (of_int \<lfloor>r\<rfloor> = r)"
| "isInteger _ = False"

text \<open>
  The values that reach the validator: decoded JSON, \<open>undefined\<close>, and the
  \<open>Date\<close> objects the date schema produces (a time value in milliseconds, \<open>None\<close>
  for an invalid date). An ordinary object is its own enumerable properties in insertion
  order; the place the language gives to keys that are array indices is outside the
  model. What a property read can find on the prototype chain of an ordinary object is
  a built-in function (\<open>JFunction\<close>, by name) or the object \<open>Object.prototype\<close>
  itself. Strings are sequences of code units below 256.
\<close>

datatype jsval =
    JUndefined
  | JNull
  | JBool bool
  | JNum jsnum
  | JStr string
  | JArr "jsval list"
  | JObj "(string \<times> jsval) list"
  | JDate "int option"
  | JFunction string
  | JObjectPrototype

text \<open>Own properties: the value stored under a key, and storing a value under a key.\<close>

fun obj_get :: "(string \<times> jsval) list \<Rightarrow> string \<Rightarrow> jsval" where
  "obj_get [] k = JUndefined"
| "obj_get ((k', v) # fs) k = (if k' = k then v else obj_get fs k)"

fun obj_set :: "(string \<times> jsval) list \<Rightarrow> string \<Rightarrow> jsval \<Rightarrow> (string \<times> jsval) list" where
  "obj_set [] k v = [(k, v)]"
| "obj_set ((k', v') # fs) k v = (if k' = k then (k, v) # fs else (k', v') # obj_set fs k v)"

section \<open>Library functions of the language\<close>

text \<open>Decimal rendering of array indices and of numbers inside messages.\<close>

definition digit_char :: "nat \<Rightarrow> char" where
  "digit_char d = ''0123456789abcdef'' ! (d mod 16)"

fun show_nat :: "nat \<Rightarrow> string" where
  "show_nat n = (if n < 10 then [digit_char n] else show_nat (n div 10) @ [digit_char (n mod 10)])"

declare show_nat.simps [simp del]

definition show_int :: "int \<Rightarrow> string" where
  "show_int i = (if i < 0 then ''-'' @ show_nat (nat (- i)) else show_nat (nat i))"

text \<open>
  Fraction digits of a rational in \<open>[0, 1)\<close>, by long division; the expansion is cut
  after the given number of digits.
\<close>

fun frac_digits :: "nat \<Rightarrow> rat \<Rightarrow> string" where
  "frac_digits 0 r = []"
| "frac_digits (Suc n) r =
     (if r = 0 then []
      else (let d = \<lfloor>r * 10\<rfloor> in digit_char (nat d) # frac_digits n (r * 10 - of_int d)))"

text \<open>
  \<open>String(n)\<close> for a number, from its decimal digits: plain notation for magnitudes
  from \<open>1e-6\<close> up to \<open>1e21\<close>, exponent notation beyond. The digits are those of the
  exact value, cut after 1100 fraction digits.
\<close>

definition mantissa :: "string \<Rightarrow> string" where
  "mantissa ds = (case ds of [] \<Rightarrow> ''0'' | c # r \<Rightarrow> (if r = [] then [c] else c # ''.'' @ r))"

fun show_jsnum :: "jsnum \<Rightarrow> string" where
  "show_jsnum NaN = ''NaN''"
| "show_jsnum PosInf = ''Infinity''"
| "show_jsnum NegInf = ''-Infinity''"
| "show_jsnum (Fin r) =
     (let a = \<bar>r\<bar>;
          sign = (if r < 0 then ''-'' else '''');
          ip = show_nat (nat \<lfloor>a\<rfloor>);
          fd = frac_digits 1100 (a - of_int \<lfloor>a\<rfloor>)
      in if r = 0 then ''0''
         else if 10 ^ 21 \<le> a then
           sign @ mantissa (rev (dropWhile (\<lambda>c. c = CHR ''0'') (rev (ip @ fd)))) @ ''e+'' @
             show_nat (length ip - 1)
         else if a < 1 / 10 ^ 6 then
           sign @ mantissa (dropWhile (\<lambda>c. c = CHR ''0'') fd) @ ''e-'' @
             show_nat (length (takeWhile (\<lambda>c. c = CHR ''0'') fd) + 1)
         else if fd = [] then sign @ ip
         else sign @ ip @ ''.'' @ fd)"

text \<open>\<open>Array.prototype.join\<close> on strings.\<close>

fun join :: "string \<Rightarrow> string list \<Rightarrow> string" where
  "join sep [] = []"
| "join sep [x] = x"
| "join sep (x # y # ys) = x @ sep @ join sep (y # ys)"

text \<open>
  \<open>String.prototype.trim\<close>: the white space and line terminators among the code
  units below 256.
\<close>

definition is_ws :: "char \<Rightarrow> bool" where
  "is_ws c = (c \<in> set [CHR 0x09, CHR 0x0A, CHR 0x0B, CHR 0x0C, CHR 0x0D, CHR '' '', CHR 0xA0])"

definition trim :: "string \<Rightarrow> string" where
  "trim s = rev (dropWhile is_ws (rev (dropWhile is_ws s)))"

text \<open>\<open>String.prototype.toLowerCase\<close>, on ASCII letters.\<close>

definition lower_char :: "char \<Rightarrow> char" where
  "lower_char c =
     (let n = (of_char c :: nat) in if 65 \<le> n \<and> n \<le> 90 then char_of (n + 32) else c)"

definition toLowerCase :: "string \<Rightarrow> string" where
  "toLowerCase s = map lower_char s"

text \<open>
  \<open>Number(s)\<close> on a string: white space is trimmed, the empty string is 0, and the
  rest must be one numeric literal: an optionally signed decimal literal (digits,
  fraction, exponent, \<open>Infinity\<close>) or an unsigned hexadecimal, octal or binary
  literal. Anything else is \<open>NaN\<close>. A value beyond the range of a double is an
  infinity, a value below half the least positive double is 0; within the range the
  exact value is kept.
\<close>

definition is_digit :: "char \<Rightarrow> bool" where
  "is_digit c = (let n = (of_char c :: nat) in 48 \<le> n \<and> n \<le> 57)"

definition digit_val :: "char \<Rightarrow> nat" where
  "digit_val c =
     (let n = (of_char c :: nat) in
      if 48 \<le> n \<and> n \<le> 57 then n - 48
      else if 97 \<le> n \<and> n \<le> 102 then n - 87
      else if 65 \<le> n \<and> n \<le> 70 then n - 55
      else 16)"

definition digits_val :: "nat \<Rightarrow> string \<Rightarrow> nat" where
  "digits_val base s = foldl (\<lambda>a c. base * a + digit_val c) 0 s"

definition radix_literal :: "nat \<Rightarrow> string \<Rightarrow> jsnum" where
  "radix_literal base s =
     (if s \<noteq> [] \<and> (\<forall>c \<in> set s. digit_val c < base)
      then Fin (of_nat (digits_val base s)) else NaN)"

fun exponent_part :: "rat \<Rightarrow> string \<Rightarrow> jsnum" where
  "exponent_part m [] = Fin m"
| "exponent_part m (e # r) =
     (if e = CHR ''e'' \<or> e = CHR ''E'' then
        (case r of
           [] \<Rightarrow> NaN
         | s # ds \<Rightarrow>
            (if s = CHR ''-'' then
               (if ds \<noteq> [] \<and> (\<forall>c \<in> set ds. is_digit c)
                then Fin (m / 10 ^ digits_val 10 ds) else NaN)
             else if s = CHR ''+'' then
               (if ds \<noteq> [] \<and> (\<forall>c \<in> set ds. is_digit c)
                then Fin (m * 10 ^ digits_val 10 ds) else NaN)
             else
               (if \<forall>c \<in> set r. is_digit c
                then Fin (m * 10 ^ digits_val 10 r) else NaN)))
      else NaN)"

definition unsigned_decimal :: "string \<Rightarrow> jsnum" where
  "unsigned_decimal s =
     (if s = ''Infinity'' then PosInf
      else
        (let ip = takeWhile is_digit s;
             r1 = dropWhile is_digit s;
             fp = (case r1 of [] \<Rightarrow> [] | c # r \<Rightarrow> if c = CHR ''.'' then takeWhile is_digit r else []);
             r2 = (case r1 of [] \<Rightarrow> [] | c # r \<Rightarrow> if c = CHR ''.'' then dropWhile is_digit r else r1)
         in if ip = [] \<and> fp = [] then NaN
            else exponent_part (of_nat (digits_val 10 (ip @ fp)) / 10 ^ length fp) r2))"

fun js_negate :: "jsnum \<Rightarrow> jsnum" where
  "js_negate NaN = NaN"
| "js_negate NegInf = PosInf"
| "js_negate PosInf = NegInf"
| "js_negate (Fin r) = Fin (- r)"

definition numeric_literal :: "string \<Rightarrow> jsnum" where
  "numeric_literal s =
     (case s of
        [] \<Rightarrow> Fin 0
      | c # r \<Rightarrow>
         (if c = CHR ''-'' then js_negate (unsigned_decimal r)
          else if c = CHR ''+'' then unsigned_decimal r
          else if c = CHR ''0'' \<and> r \<noteq> [] \<and> (hd r = CHR ''x'' \<or> hd r = CHR ''X'') then radix_literal 16 (tl r)
          else if c = CHR ''0'' \<and> r \<noteq> [] \<and> (hd r = CHR ''o'' \<or> hd r = CHR ''O'') then radix_literal 8 (tl r)
          else if c = CHR ''0'' \<and> r \<noteq> [] \<and> (hd r = CHR ''b'' \<or> hd r = CHR ''B'') then radix_literal 2 (tl r)
          else unsigned_decimal (c # r)))"

text \<open>
  A numeric literal denotes a double: the nearest one, ties going to the even
  significand, and an infinity from the magnitude \<open>2 ^ 1024 - 2 ^ 970\<close> on.
  \<open>binary_exponent r\<close> is the \<open>e\<close> with \<open>2 ^ e \<le> r < 2 ^ (e + 1)\<close>, for
  a positive \<open>r\<close>; the spacing of the doubles around \<open>r\<close> is \<open>2 ^ (e - 52)\<close>,
  and \<open>2 ^ - 1074\<close> below the least normal double.
\<close>

definition round_half_even :: "rat \<Rightarrow> int" where
  "round_half_even x =
     (let f = \<lfloor>x\<rfloor>; d = x - of_int f in
      if d < 1 / 2 then f else if 1 / 2 < d then f + 1 else if even f then f else f + 1)"

definition pow2 :: "int \<Rightarrow> rat" where
  "pow2 k = (if 0 \<le> k then 2 ^ nat k else 1 / 2 ^ nat (- k))"

definition binary_exponent :: "rat \<Rightarrow> int" where
  "binary_exponent r =
     (let k = bitlen (fst (quotient_of r)) - bitlen (snd (quotient_of r)) in
      if pow2 k \<le> r then k else k - 1)"

definition to_double :: "rat \<Rightarrow> rat" where
  "to_double r =
     (if r = 0 then 0
      else
        (let e = max (binary_exponent \<bar>r\<bar>) (- 1022); q = pow2 (e - 52) in
         sgn r * of_int (round_half_even (\<bar>r\<bar> / q)) * q))"

definition double_overflow :: rat where
  "double_overflow =
     179769313486231580793728971405303415079934132710037826936173778980444968292764750946649017977587207096330286416692887910946555547851940402630657488671505820681908902000708383676273854845817711531764475730270069855571366959622842914819860834936475292719074168444365510704342711559699508093042880177904174497792"

definition double_range :: "jsnum \<Rightarrow> jsnum" where
  "double_range x =
     (case x of
        Fin r \<Rightarrow>
          (if double_overflow \<le> \<bar>r\<bar> then (if r < 0 then NegInf else PosInf)
           else Fin (to_double r))
      | _ \<Rightarrow> x)"

definition js_Number :: "string \<Rightarrow> jsnum" where
  "js_Number s = double_range (numeric_literal (trim s))"

text \<open>
  \<open>JSON.stringify\<close> on a string, a number or a boolean (the values a literal schema
  holds).
\<close>

definition json_escape :: "char \<Rightarrow> string" where
  "json_escape c =
     (let n = (of_char c :: nat) in
      if c = CHR 0x22 then [CHR 0x5C, CHR 0x22]
      else if c = CHR 0x5C then [CHR 0x5C, CHR 0x5C]
      else if c = CHR 0x08 then [CHR 0x5C, CHR ''b'']
      else if c = CHR 0x0C then [CHR 0x5C, CHR ''f'']
      else if c = CHR 0x0A then [CHR 0x5C, CHR ''n'']
      else if c = CHR 0x0D then [CHR 0x5C, CHR ''r'']
      else if c = CHR 0x09 then [CHR 0x5C, CHR ''t'']
      else if n < 32 then [CHR 0x5C] @ ''u00'' @ [digit_char (n div 16), digit_char (n mod 16)]
      else [c])"

definition json_string :: "string \<Rightarrow> string" where
  "json_string s = [CHR 0x22] @ concat (map json_escape s) @ [CHR 0x22]"

text \<open>
  A \<open>RegExp\<close> object: its source text, its flags, its \<open>lastIndex\<close>, and what it
  matches. The pattern proper is a regular expression over characters; the two anchors
  say whether the pattern starts with \<open>^\<close> and ends with \<open>$\<close>.
  \<open>RegExp.prototype.test\<close> searches: it succeeds when the pattern matches somewhere
  in the string, anchors permitting. With the flag \<open>g\<close> the search starts at
  \<open>lastIndex\<close>, with the flag \<open>y\<close> the match must start there. With either flag
  \<open>test\<close> also writes \<open>lastIndex\<close>; that write is not part of the model, in which
  a schema is a value: \<open>regexp_test\<close> is one test on the object as it stands.
\<close>

datatype rexp = Zero | One | Atom char | AnyChar | Alt rexp rexp | Seq rexp rexp | Star rexp

fun nullable :: "rexp \<Rightarrow> bool" where
  "nullable Zero = False"
| "nullable One = True"
| "nullable (Atom c) = False"
| "nullable AnyChar = False"
| "nullable (Alt r s) = (nullable r \<or> nullable s)"
| "nullable (Seq r s) = (nullable r \<and> nullable s)"
| "nullable (Star r) = True"

fun deriv :: "char \<Rightarrow> rexp \<Rightarrow> rexp" where
  "deriv c Zero = Zero"
| "deriv c One = Zero"
| "deriv c (Atom d) = (if c = d then One else Zero)"
| "deriv c AnyChar = One"
| "deriv c (Alt r s) = Alt (deriv c r) (deriv c s)"
| "deriv c (Seq r s) =
     (if nullable r then Alt (Seq (deriv c r) s) (deriv c s) else Seq (deriv c r) s)"
| "deriv c (Star r) = Seq (deriv c r) (Star r)"

text \<open>The whole string is in the language of the expression.\<close>

fun matches :: "rexp \<Rightarrow> string \<Rightarrow> bool" where
  "matches r [] = nullable r"
| "matches r (c # s) = matches (deriv c r) s"

datatype RegExp =
  RegExp (source: string) (flags: string) (lastIndex: nat)
    (anchor_start: bool) (body: rexp) (anchor_end: bool)

definition regexp_test :: "RegExp \<Rightarrow> string \<Rightarrow> bool" where
  "regexp_test re s =
     (let rest = Seq (body re) (if anchor_end re then One else Star AnyChar) in
      if CHR ''y'' \<in> set (flags re) then
        lastIndex re \<le> length s \<and> (if anchor_start re then lastIndex re = 0 else True) \<and>
        matches rest (drop (lastIndex re) s)
      else if CHR ''g'' \<in> set (flags re) then
        lastIndex re \<le> length s \<and>
        (if anchor_start re then lastIndex re = 0 \<and> matches rest s
         else matches (Seq (Star AnyChar) rest) (drop (lastIndex re) s))
      else matches (Seq (if anchor_start re then One else Star AnyChar) rest) s)"

definition regexp_toString :: "RegExp \<Rightarrow> string" where
  "regexp_toString re = ''/'' @ source re @ ''/'' @ flags re"

text \<open>
  What the host's \<open>Date\<close> does is taken as a parameter: \<open>Date_parse h s\<close> is the time
  value of \<open>new Date(s)\<close> (\<open>None\<close> when it is \<open>NaN\<close>), \<open>toISOString h t\<close> the
  rendering of a valid time value, and \<open>Date_prototype h key\<close> what reading the
  property \<open>key\<close> of a \<open>Date\<close> object gives.
\<close>

record host =
  Date_parse :: "string \<Rightarrow> int option"
  toISOString :: "int \<Rightarrow> string"
  Date_prototype :: "string \<Rightarrow> jsval"

text \<open>
  The property read \<open>obj[key]\<close> on a value that passed the object check. An own
  property wins; otherwise the read goes up the prototype chain, where an ordinary
  object finds the members of \<open>Object.prototype\<close>: eleven functions and the accessor
  \<open>__proto__\<close>, which gives the prototype of the object read from.
\<close>

definition Object_prototype_functions :: "string list" where
  "Object_prototype_functions =
     [''constructor'', ''__defineGetter__'', ''__defineSetter__'', ''hasOwnProperty'',
      ''__lookupGetter__'', ''__lookupSetter__'', ''isPrototypeOf'', ''propertyIsEnumerable'',
      ''toString'', ''valueOf'', ''toLocaleString'']"

definition inherited :: "string \<Rightarrow> jsval" where
  "inherited key =
     (if key = ''__proto__'' then JObjectPrototype
      else if key \<in> set Object_prototype_functions then JFunction key
      else JUndefined)"

definition property_read :: "host \<Rightarrow> jsval \<Rightarrow> string \<Rightarrow> jsval" where
  "property_read h d key =
     (case d of
        JObj obj \<Rightarrow> (case map_of obj key of Some v \<Rightarrow> v | None \<Rightarrow> inherited key)
      | JObjectPrototype \<Rightarrow>
          (if key = ''__proto__'' then JNull
           else if key \<in> set Object_prototype_functions then JFunction key
           else JUndefined)
      | JDate t \<Rightarrow> Date_prototype h key
      | _ \<Rightarrow> JUndefined)"

text \<open>
  The property write \<open>obj[key] = value\<close> on an ordinary object built by the engine:
  it stores an own property, except that a write to \<open>__proto__\<close> goes to the inherited
  accessor and stores none.
\<close>

definition property_write :: "(string \<times> jsval) list \<Rightarrow> string \<Rightarrow> jsval \<Rightarrow> (string \<times> jsval) list" where
  "property_write fs key v = (if key = ''__proto__'' then fs else obj_set fs key v)"

text \<open>
  \<open>typeof data === "object"\<close>, not \<open>null\<close> and not an array; and
  \<open>Object.entries(data)\<close> of such a value.
\<close>

fun is_object :: "jsval \<Rightarrow> bool" where
  "is_object (JObj obj) = True"
| "is_object (JDate t) = True"
| "is_object JObjectPrototype = True"
| "is_object _ = False"

fun Object_entries :: "jsval \<Rightarrow> (string \<times> jsval) list" where
  "Object_entries (JObj obj) = obj"
| "Object_entries _ = []"

section \<open>Validation issue and error\<close>

record ValidationIssue =
  path :: string
  message :: string

record ValidationError =
  error_message :: string
  issues :: "ValidationIssue list"

definition new_ValidationError :: "ValidationIssue list \<Rightarrow> ValidationError" where
  "new_ValidationError iss =
     \<lparr> error_message = ''Validation failed: '' @ join '', '' (map message iss),
       issues = iss \<rparr>"

text \<open>
  What a call can raise: a \<open>ValidationError\<close>, or any other thrown value. The engine
  itself only ever throws \<open>ValidationError\<close>; the body of a transform function can
  throw either.
\<close>

datatype failure = VErr ValidationError | Thrown jsval

definition fail :: "string option \<Rightarrow> string \<Rightarrow> string \<Rightarrow> failure + jsval" where
  "fail customMessage p defaultMessage =
     Inl (VErr (new_ValidationError
       [\<lparr> path = p, message = (case customMessage of Some m \<Rightarrow> m | None \<Rightarrow> defaultMessage) \<rparr>]))"

text \<open>\<open>throw new ValidationError([{ path, message }])\<close>, as the constraint loops do.\<close>

definition raise_issue :: "string \<Rightarrow> string \<Rightarrow> failure" where
  "raise_issue p m = VErr (new_ValidationError [\<lparr> path = p, message = m \<rparr>])"

section \<open>Schemas\<close>

datatype StringCheck = SMin jsnum | SMax jsnum | SPattern RegExp

datatype NumberCheck = NMin jsnum | NMax jsnum | NInteger

datatype ArrayCheck = AMin jsnum | AMax jsnum

datatype DateCheck = DMin "int option" | DMax "int option"

datatype literal = LStr string | LNum jsnum | LBool bool

text \<open>
  One constructor per schema class. The first field of each is the base class's
  \<open>_customMessage\<close>. A transform function either returns a value (\<open>Inr\<close>) or
  throws (\<open>Inl\<close>): a \<open>ValidationError\<close> of its own making, or any other value. An
  object shape is its entries in the order \<open>Object.keys\<close> lists them, with distinct
  keys.
\<close>

datatype schema =
    StringSchema "string option" "StringCheck list"
  | CoercedStringSchema "string option" "StringCheck list"
  | NumberSchema "string option" "NumberCheck list"
  | CoercedNumberSchema "string option" "NumberCheck list"
  | BooleanSchema "string option"
  | CoercedBooleanSchema "string option"
  | ArraySchema "string option" "ArrayCheck list" schema
  | ObjectSchema "string option" "(string \<times> schema) list"
  | EnumSchema "string option" "string list"
  | LiteralSchema "string option" literal
  | UnionSchema "string option" "schema list"
  | RecordSchema "string option" schema
  | DateSchema "string option" "DateCheck list"
  | OptionalSchema "string option" schema
  | NullableSchema "string option" schema
  | TransformSchema "string option" schema "jsval \<Rightarrow> failure + jsval"

text \<open>\<open>Schema.message(msg)\<close>: sets the custom message of the schema it is called on.\<close>

fun message_schema :: "string \<Rightarrow> schema \<Rightarrow> schema" where
  "message_schema msg (StringSchema _ cs) = StringSchema (Some msg) cs"
| "message_schema msg (CoercedStringSchema _ cs) = CoercedStringSchema (Some msg) cs"
| "message_schema msg (NumberSchema _ cs) = NumberSchema (Some msg) cs"
| "message_schema msg (CoercedNumberSchema _ cs) = CoercedNumberSchema (Some msg) cs"
| "message_schema msg (BooleanSchema _) = BooleanSchema (Some msg)"
| "message_schema msg (CoercedBooleanSchema _) = CoercedBooleanSchema (Some msg)"
| "message_schema msg (ArraySchema _ cs item) = ArraySchema (Some msg) cs item"
| "message_schema msg (ObjectSchema _ shape) = ObjectSchema (Some msg) shape"
| "message_schema msg (EnumSchema _ vs) = EnumSchema (Some msg) vs"
| "message_schema msg (LiteralSchema _ v) = LiteralSchema (Some msg) v"
| "message_schema msg (UnionSchema _ ss) = UnionSchema (Some msg) ss"
| "message_schema msg (RecordSchema _ vs) = RecordSchema (Some msg) vs"
| "message_schema msg (DateSchema _ cs) = DateSchema (Some msg) cs"
| "message_schema msg (OptionalSchema _ inner) = OptionalSchema (Some msg) inner"
| "message_schema msg (NullableSchema _ inner) = NullableSchema (Some msg) inner"
| "message_schema msg (TransformSchema _ inner fn) = TransformSchema (Some msg) inner fn"

section \<open>Primitive schemas\<close>

text \<open>The constraint loop of \<open>StringSchema.parse\<close>, on a string.\<close>

fun string_checks :: "StringCheck list \<Rightarrow> string \<Rightarrow> string \<Rightarrow> failure + jsval" where
  "string_checks [] s p = Inr (JStr s)"
| "string_checks (SMin n # cs) s p =
     (if js_lt (Fin (of_nat (length s))) n
      then Inl (raise_issue p (''String must be at least '' @ show_jsnum n @ '' characters''))
      else string_checks cs s p)"
| "string_checks (SMax n # cs) s p =
     (if js_gt (Fin (of_nat (length s))) n
      then Inl (raise_issue p (''String must be at most '' @ show_jsnum n @ '' characters''))
      else string_checks cs s p)"
| "string_checks (SPattern re # cs) s p =
     (if \<not> regexp_test re s
      then Inl (raise_issue p (''String must match pattern '' @ regexp_toString re))
      else string_checks cs s p)"

definition StringSchema_parse :: "string option \<Rightarrow> StringCheck list \<Rightarrow> jsval \<Rightarrow> string \<Rightarrow> failure + jsval" where
  "StringSchema_parse msg cs d p =
     (case d of JStr s \<Rightarrow> string_checks cs s p | _ \<Rightarrow> fail msg p ''Expected string'')"

fun number_checks :: "NumberCheck list \<Rightarrow> jsnum \<Rightarrow> string \<Rightarrow> failure + jsval" where
  "number_checks [] x p = Inr (JNum x)"
| "number_checks (NMin n # cs) x p =
     (if js_lt x n
      then Inl (raise_issue p (''Number must be at least '' @ show_jsnum n))
      else number_checks cs x p)"
| "number_checks (NMax n # cs) x p =
     (if js_gt x n
      then Inl (raise_issue p (''Number must be at most '' @ show_jsnum n))
      else number_checks cs x p)"
| "number_checks (NInteger # cs) x p =
     (if \<not> isInteger x
      then Inl (raise_issue p ''Number must be an integer'')
      else number_checks cs x p)"

definition NumberSchema_parse :: "string option \<Rightarrow> NumberCheck list \<Rightarrow> jsval \<Rightarrow> string \<Rightarrow> failure + jsval" where
  "NumberSchema_parse msg cs d p =
     (case d of
        JNum x \<Rightarrow> (if isNaN x then fail msg p ''Expected number'' else number_checks cs x p)
      | _ \<Rightarrow> fail msg p ''Expected number'')"

definition BooleanSchema_parse :: "string option \<Rightarrow> jsval \<Rightarrow> string \<Rightarrow> failure + jsval" where
  "BooleanSchema_parse msg d p =
     (case d of JBool b \<Rightarrow> Inr (JBool b) | _ \<Rightarrow> fail msg p ''Expected boolean'')"

section \<open>Coerced schemas\<close>

definition CoercedStringSchema_parse :: "string option \<Rightarrow> StringCheck list \<Rightarrow> jsval \<Rightarrow> string \<Rightarrow> failure + jsval" where
  "CoercedStringSchema_parse msg cs d p =
     (case d of
        JNum x \<Rightarrow> StringSchema_parse msg cs (JStr (show_jsnum x)) p
      | JBool b \<Rightarrow> StringSchema_parse msg cs (JStr (if b then ''true'' else ''false'')) p
      | _ \<Rightarrow> StringSchema_parse msg cs d p)"

definition CoercedNumberSchema_parse :: "string option \<Rightarrow> NumberCheck list \<Rightarrow> jsval \<Rightarrow> string \<Rightarrow> failure + jsval" where
  "CoercedNumberSchema_parse msg cs d p =
     (case d of
        JStr s \<Rightarrow>
          (let trimmed = trim s in
           if trimmed = [] then fail msg p ''Expected number''
           else NumberSchema_parse msg cs (JNum (js_Number trimmed)) p)
      | _ \<Rightarrow> NumberSchema_parse msg cs d p)"

definition CoercedBooleanSchema_parse :: "string option \<Rightarrow> jsval \<Rightarrow> string \<Rightarrow> failure + jsval" where
  "CoercedBooleanSchema_parse msg d p =
     (case d of
        JStr s \<Rightarrow>
          (let lower = toLowerCase s in
           if lower = ''true'' \<or> lower = ''1'' then Inr (JBool True)
           else if lower = ''false'' \<or> lower = ''0'' \<or> lower = [] then Inr (JBool False)
           else fail msg p ''Expected boolean'')
      | _ \<Rightarrow> BooleanSchema_parse msg d p)"

section \<open>Enum, literal and date schemas\<close>

definition EnumSchema_parse :: "string option \<Rightarrow> string list \<Rightarrow> jsval \<Rightarrow> string \<Rightarrow> failure + jsval" where
  "EnumSchema_parse msg vs d p =
     (case d of
        JStr s \<Rightarrow>
          (if s \<notin> set vs then fail msg p (''Expected one of: '' @ join '', '' vs)
           else Inr d)
      | _ \<Rightarrow> fail msg p (''Expected one of: '' @ join '', '' vs))"

text \<open>Strict equality of a value with a literal: \<open>NaN\<close> equals nothing.\<close>

fun strict_equal :: "jsval \<Rightarrow> literal \<Rightarrow> bool" where
  "strict_equal (JStr s) (LStr t) = (s = t)"
| "strict_equal (JNum x) (LNum y) = (\<not> isNaN x \<and> \<not> isNaN y \<and> x = y)"
| "strict_equal (JBool a) (LBool b) = (a = b)"
| "strict_equal _ _ = False"

fun JSON_stringify :: "literal \<Rightarrow> string" where
  "JSON_stringify (LStr s) = json_string s"
| "JSON_stringify (LNum x) = (case x of Fin r \<Rightarrow> show_jsnum x | _ \<Rightarrow> ''null'')"
| "JSON_stringify (LBool b) = (if b then ''true'' else ''false'')"

definition LiteralSchema_parse :: "string option \<Rightarrow> literal \<Rightarrow> jsval \<Rightarrow> string \<Rightarrow> failure + jsval" where
  "LiteralSchema_parse msg v d p =
     (if \<not> strict_equal d v then fail msg p (''Expected literal '' @ JSON_stringify v) else Inr d)"

text \<open>
  The constraint loop of \<open>DateSchema.parse\<close>, on a valid time value. A bound that is
  an invalid date has time value \<open>NaN\<close>, and no comparison with it holds.
\<close>

fun date_checks :: "host \<Rightarrow> DateCheck list \<Rightarrow> int \<Rightarrow> string \<Rightarrow> failure + jsval" where
  "date_checks h [] t p = Inr (JDate (Some t))"
| "date_checks h (DMin v # cs) t p =
     (case v of
        Some b \<Rightarrow>
          (if t < b
           then Inl (raise_issue p (''Date must be on or after '' @ toISOString h b))
           else date_checks h cs t p)
      | None \<Rightarrow> date_checks h cs t p)"
| "date_checks h (DMax v # cs) t p =
     (case v of
        Some b \<Rightarrow>
          (if t > b
           then Inl (raise_issue p (''Date must be on or before '' @ toISOString h b))
           else date_checks h cs t p)
      | None \<Rightarrow> date_checks h cs t p)"

definition DateSchema_parse :: "host \<Rightarrow> string option \<Rightarrow> DateCheck list \<Rightarrow> jsval \<Rightarrow> string \<Rightarrow> failure + jsval" where
  "DateSchema_parse h msg cs d p =
     (case d of
        JStr s \<Rightarrow>
          (case Date_parse h s of
             None \<Rightarrow> fail msg p ''Invalid date''
           | Some t \<Rightarrow> date_checks h cs t p)
      | _ \<Rightarrow> fail msg p ''Expected date string'')"

section \<open>Containers, unions and wrappers: \<open>parse\<close>\<close>

text \<open>
  The path of a child: \<open>path ? `${path}[${i}]` : `[${i}]`\<close> for an array element,
  \<open>path ? `${path}.${key}` : key\<close> for a field of an object or a record.
\<close>

definition item_path :: "string \<Rightarrow> nat \<Rightarrow> string" where
  "item_path p i = (if p \<noteq> [] then p @ ''['' @ show_nat i @ '']'' else ''['' @ show_nat i @ '']'')"

definition field_path :: "string \<Rightarrow> string \<Rightarrow> string" where
  "field_path p key = (if p \<noteq> [] then p @ ''.'' @ key else key)"

text \<open>The length checks of \<open>ArraySchema.parse\<close>: the error of the first failing one.\<close>

fun array_checks :: "ArrayCheck list \<Rightarrow> nat \<Rightarrow> string \<Rightarrow> failure option" where
  "array_checks [] len p = None"
| "array_checks (AMin n # cs) len p =
     (if js_lt (Fin (of_nat len)) n
      then Some (raise_issue p (''Array must have at least '' @ show_jsnum n @ '' items''))
      else array_checks cs len p)"
| "array_checks (AMax n # cs) len p =
     (if js_gt (Fin (of_nat len)) n
      then Some (raise_issue p (''Array must have at most '' @ show_jsnum n @ '' items''))
      else array_checks cs len p)"

text \<open>
  \<open>if (issues.length > 0) throw new ValidationError(issues); return result\<close>, the end
  of every container's \<open>parse\<close>.
\<close>

definition finish :: "ValidationIssue list \<Rightarrow> jsval \<Rightarrow> failure + jsval" where
  "finish iss result = (if length iss > 0 then Inl (VErr (new_ValidationError iss)) else Inr result)"

text \<open>
  \<open>parse\<close> of every schema class, with the loops of the containers and of the union
  as functions of their own. A container's loop carries the issues and the result built so
  far; it ends at once (\<open>Inl\<close>) with a thrown value that is not a \<open>ValidationError\<close>.
  The loop of the object schema visits the entries of the shape, reading each key from
  the input.
\<close>

function parse :: "host \<Rightarrow> schema \<Rightarrow> jsval \<Rightarrow> string \<Rightarrow> failure + jsval"
  and parse_items :: "host \<Rightarrow> schema \<Rightarrow> jsval list \<Rightarrow> nat \<Rightarrow> string \<Rightarrow>
        ValidationIssue list \<Rightarrow> jsval list \<Rightarrow> jsval + (ValidationIssue list \<times> jsval list)"
  and parse_fields :: "host \<Rightarrow> (string \<times> schema) list \<Rightarrow> jsval \<Rightarrow> string \<Rightarrow>
        ValidationIssue list \<Rightarrow> (string \<times> jsval) list \<Rightarrow>
        jsval + (ValidationIssue list \<times> (string \<times> jsval) list)"
  and parse_entries :: "host \<Rightarrow> schema \<Rightarrow> (string \<times> jsval) list \<Rightarrow> string \<Rightarrow>
        ValidationIssue list \<Rightarrow> (string \<times> jsval) list \<Rightarrow>
        jsval + (ValidationIssue list \<times> (string \<times> jsval) list)"
  and parse_union :: "host \<Rightarrow> schema list \<Rightarrow> jsval \<Rightarrow> string \<Rightarrow> jsval option"
where
  "parse h (StringSchema msg cs) d p = StringSchema_parse msg cs d p"
| "parse h (CoercedStringSchema msg cs) d p = CoercedStringSchema_parse msg cs d p"
| "parse h (NumberSchema msg cs) d p = NumberSchema_parse msg cs d p"
| "parse h (CoercedNumberSchema msg cs) d p = CoercedNumberSchema_parse msg cs d p"
| "parse h (BooleanSchema msg) d p = BooleanSchema_parse msg d p"
| "parse h (CoercedBooleanSchema msg) d p = CoercedBooleanSchema_parse msg d p"
| "parse h (EnumSchema msg vs) d p = EnumSchema_parse msg vs d p"
| "parse h (LiteralSchema msg v) d p = LiteralSchema_parse msg v d p"
| "parse h (DateSchema msg cs) d p = DateSchema_parse h msg cs d p"
| "parse h (OptionalSchema msg inner) d p =
     (if d = JUndefined then Inr JUndefined else parse h inner d p)"
| "parse h (NullableSchema msg inner) d p =
     (if d = JNull then Inr JNull else parse h inner d p)"
| "parse h (TransformSchema msg inner fn) d p =
     (case parse h inner d p of
        Inl e \<Rightarrow> Inl e
      | Inr v \<Rightarrow> fn v)"
| "parse h (ArraySchema msg cs item) d p =
     (case d of
        JArr xs \<Rightarrow>
          (case array_checks cs (length xs) p of
             Some e \<Rightarrow> Inl e
           | None \<Rightarrow>
              (case parse_items h item xs 0 p [] [] of
                 Inl x \<Rightarrow> Inl (Thrown x)
               | Inr (iss, result) \<Rightarrow> finish iss (JArr result)))
      | _ \<Rightarrow> fail msg p ''Expected array'')"
| "parse h (ObjectSchema msg shape) d p =
     (if \<not> is_object d then fail msg p ''Expected object''
      else
        (case parse_fields h shape d p [] [] of
           Inl x \<Rightarrow> Inl (Thrown x)
         | Inr (iss, result) \<Rightarrow> finish iss (JObj result)))"
| "parse h (RecordSchema msg valueSchema) d p =
     (if \<not> is_object d then fail msg p ''Expected object''
      else
        (case parse_entries h valueSchema (Object_entries d) p [] [] of
           Inl x \<Rightarrow> Inl (Thrown x)
         | Inr (iss, result) \<Rightarrow> finish iss (JObj result)))"
| "parse h (UnionSchema msg schemas) d p =
     (case parse_union h schemas d p of
        Some v \<Rightarrow> Inr v
      | None \<Rightarrow> fail msg p ''Value does not match any type in the union'')"
| "parse_items h item [] i p iss result = Inr (iss, result)"
| "parse_items h item (x # xs) i p iss result =
     (case parse h item x (item_path p i) of
        Inr v \<Rightarrow> parse_items h item xs (i + 1) p iss (result @ [v])
      | Inl (VErr err) \<Rightarrow> parse_items h item xs (i + 1) p (iss @ issues err) result
      | Inl (Thrown e) \<Rightarrow> Inl e)"
| "parse_fields h [] obj p iss result = Inr (iss, result)"
| "parse_fields h ((key, fieldSchema) # rest) obj p iss result =
     (case parse h fieldSchema (property_read h obj key) (field_path p key) of
        Inr v \<Rightarrow>
          parse_fields h rest obj p iss
            (if v \<noteq> JUndefined then property_write result key v else result)
      | Inl (VErr err) \<Rightarrow> parse_fields h rest obj p (iss @ issues err) result
      | Inl (Thrown e) \<Rightarrow> Inl e)"
| "parse_entries h valueSchema [] p iss result = Inr (iss, result)"
| "parse_entries h valueSchema ((key, val) # rest) p iss result =
     (case parse h valueSchema val (field_path p key) of
        Inr v \<Rightarrow> parse_entries h valueSchema rest p iss (property_write result key v)
      | Inl (VErr err) \<Rightarrow> parse_entries h valueSchema rest p (iss @ issues err) result
      | Inl (Thrown e) \<Rightarrow> Inl e)"
| "parse_union h [] d p = None"
| "parse_union h (s # ss) d p =
     (case parse h s d p of
        Inr v \<Rightarrow> Some v
      | Inl e \<Rightarrow> parse_union h ss d p)"
  by pat_completeness auto

termination
  apply (relation "inv_image (less_than <*lex*> less_than)
        (\<lambda>x. case x of
           Inl (Inl (h, s, d, p)) \<Rightarrow> (size s, 1::nat)
         | Inl (Inr (h, item, xs, i, p, iss, result)) \<Rightarrow> (size item, 2 + length xs)
         | Inr (Inl (h, shape, obj, p, iss, result)) \<Rightarrow> (size (ObjectSchema None shape), 0)
         | Inr (Inr (Inl (h, valueSchema, ents, p, iss, result))) \<Rightarrow> (size valueSchema, 2 + length ents)
         | Inr (Inr (Inr (h, schemas, d, p))) \<Rightarrow> (size (UnionSchema None schemas), 0))")
   apply (intro wf_inv_image wf_lex_prod wf_less_than)
  apply simp_all
  done

section \<open>The exported document: \<open>toJsonSchema\<close>\<close>

text \<open>\<open>fieldSchema instanceof OptionalSchema\<close>: the class of the schema object itself.\<close>

fun instanceof_OptionalSchema :: "schema \<Rightarrow> bool" where
  "instanceof_OptionalSchema (OptionalSchema msg inner) = True"
| "instanceof_OptionalSchema _ = False"

fun string_keywords :: "StringCheck list \<Rightarrow> (string \<times> jsval) list \<Rightarrow> (string \<times> jsval) list" where
  "string_keywords [] doc = doc"
| "string_keywords (SMin n # cs) doc = string_keywords cs (property_write doc ''minLength'' (JNum n))"
| "string_keywords (SMax n # cs) doc = string_keywords cs (property_write doc ''maxLength'' (JNum n))"
| "string_keywords (SPattern re # cs) doc = string_keywords cs (property_write doc ''pattern'' (JStr (source re)))"

fun number_keywords :: "NumberCheck list \<Rightarrow> (string \<times> jsval) list \<Rightarrow> (string \<times> jsval) list" where
  "number_keywords [] doc = doc"
| "number_keywords (NMin n # cs) doc = number_keywords cs (property_write doc ''minimum'' (JNum n))"
| "number_keywords (NMax n # cs) doc = number_keywords cs (property_write doc ''maximum'' (JNum n))"
| "number_keywords (NInteger # cs) doc = number_keywords cs (property_write doc ''type'' (JStr ''integer''))"

fun array_keywords :: "ArrayCheck list \<Rightarrow> (string \<times> jsval) list \<Rightarrow> (string \<times> jsval) list" where
  "array_keywords [] doc = doc"
| "array_keywords (AMin n # cs) doc = array_keywords cs (property_write doc ''minItems'' (JNum n))"
| "array_keywords (AMax n # cs) doc = array_keywords cs (property_write doc ''maxItems'' (JNum n))"

fun literal_value :: "literal \<Rightarrow> jsval" where
  "literal_value (LStr s) = JStr s"
| "literal_value (LNum x) = JNum x"
| "literal_value (LBool b) = JBool b"

text \<open>
  The loop of \<open>ObjectSchema.toJsonSchema\<close> carries \<open>properties\<close> and \<open>required\<close>;
  the \<open>map\<close> of the union schema is \<open>toJsonSchema_all\<close>.
\<close>

function toJsonSchema :: "schema \<Rightarrow> jsval"
  and toJsonSchema_fields :: "(string \<times> schema) list \<Rightarrow> (string \<times> jsval) list \<Rightarrow> string list \<Rightarrow>
        (string \<times> jsval) list \<times> string list"
  and toJsonSchema_all :: "schema list \<Rightarrow> jsval list"
where
  "toJsonSchema (StringSchema msg cs) = JObj (string_keywords cs [(''type'', JStr ''string'')])"
| "toJsonSchema (CoercedStringSchema msg cs) = JObj (string_keywords cs [(''type'', JStr ''string'')])"
| "toJsonSchema (NumberSchema msg cs) = JObj (number_keywords cs [(''type'', JStr ''number'')])"
| "toJsonSchema (CoercedNumberSchema msg cs) = JObj (number_keywords cs [(''type'', JStr ''number'')])"
| "toJsonSchema (BooleanSchema msg) = JObj [(''type'', JStr ''boolean'')]"
| "toJsonSchema (CoercedBooleanSchema msg) = JObj [(''type'', JStr ''boolean'')]"
| "toJsonSchema (ArraySchema msg cs item) =
     JObj (array_keywords cs [(''type'', JStr ''array''), (''items'', toJsonSchema item)])"
| "toJsonSchema (ObjectSchema msg shape) =
     (case toJsonSchema_fields shape [] [] of
        (properties, required) \<Rightarrow>
          (let doc = [(''type'', JStr ''object''), (''properties'', JObj properties)]
           in JObj (if length required > 0 then property_write doc ''required'' (JArr (map JStr required))
                    else doc)))"
| "toJsonSchema (EnumSchema msg vs) = JObj [(''type'', JStr ''string''), (''enum'', JArr (map JStr vs))]"
| "toJsonSchema (LiteralSchema msg v) = JObj [(''const'', literal_value v)]"
| "toJsonSchema (UnionSchema msg schemas) = JObj [(''oneOf'', JArr (toJsonSchema_all schemas))]"
| "toJsonSchema (RecordSchema msg valueSchema) =
     JObj [(''type'', JStr ''object''), (''additionalProperties'', toJsonSchema valueSchema)]"
| "toJsonSchema (DateSchema msg cs) = JObj [(''type'', JStr ''string''), (''format'', JStr ''date-time'')]"
| "toJsonSchema (OptionalSchema msg inner) = toJsonSchema inner"
| "toJsonSchema (NullableSchema msg inner) =
     JObj [(''oneOf'', JArr [toJsonSchema inner, JObj [(''type'', JStr ''null'')]])]"
| "toJsonSchema (TransformSchema msg inner fn) = toJsonSchema inner"
| "toJsonSchema_fields [] properties required = (properties, required)"
| "toJsonSchema_fields ((key, fieldSchema) # rest) properties required =
     toJsonSchema_fields rest
       (property_write properties key (toJsonSchema fieldSchema))
       (if \<not> instanceof_OptionalSchema fieldSchema then required @ [key] else required)"
| "toJsonSchema_all [] = []"
| "toJsonSchema_all (s # ss) = toJsonSchema s # toJsonSchema_all ss"
  by pat_completeness auto

termination
  apply (relation "inv_image (less_than <*lex*> less_than)
        (\<lambda>x. case x of
           Inl s \<Rightarrow> (size s, 1::nat)
         | Inr (Inl (shape, properties, required)) \<Rightarrow> (size (ObjectSchema None shape), 0)
         | Inr (Inr schemas) \<Rightarrow> (size (UnionSchema None schemas), 0))")
   apply (intro wf_inv_image wf_lex_prod wf_less_than)
  apply simp_all
  done

text \<open>The \<open>required\<close> member of an exported object document (empty when it is absent).\<close>

definition required_keys :: "jsval \<Rightarrow> jsval list" where
  "required_keys doc =
     (case doc of
        JObj fs \<Rightarrow> (case obj_get fs ''required'' of JArr ks \<Rightarrow> ks | _ \<Rightarrow> [])
      | _ \<Rightarrow> [])"

section \<open>Notions used to state the properties\<close>

text \<open>
  The outcomes of the children of a container, each child parsed on its own: the
  elements of an array by index, the declared keys of an object in the order of the
  shape, the entries of a record in the order of the input.
\<close>

definition array_children :: "host \<Rightarrow> schema \<Rightarrow> jsval list \<Rightarrow> string \<Rightarrow> (failure + jsval) list" where
  "array_children h item xs p = map (\<lambda>(i, x). parse h item x (item_path p i)) (enumerate 0 xs)"

definition object_children :: "host \<Rightarrow> (string \<times> schema) list \<Rightarrow> jsval \<Rightarrow> string \<Rightarrow>
    (failure + jsval) list" where
  "object_children h shape d p =
     map (\<lambda>(key, fieldSchema). parse h fieldSchema (property_read h d key) (field_path p key)) shape"

definition record_children :: "host \<Rightarrow> schema \<Rightarrow> (string \<times> jsval) list \<Rightarrow> string \<Rightarrow> (failure + jsval) list" where
  "record_children h valueSchema obj p =
     map (\<lambda>(key, val). parse h valueSchema val (field_path p key)) obj"

text \<open>
  The issues of the children's validation errors in visit order, the values of the
  children that succeeded, and the first thrown value that is not a validation error.
\<close>

fun child_issues :: "failure + jsval \<Rightarrow> ValidationIssue list" where
  "child_issues (Inl (VErr err)) = issues err"
| "child_issues (Inl (Thrown x)) = []"
| "child_issues (Inr v) = []"

definition collected :: "(failure + jsval) list \<Rightarrow> ValidationIssue list" where
  "collected rs = concat (map child_issues rs)"

fun child_values :: "(failure + jsval) list \<Rightarrow> jsval list" where
  "child_values [] = []"
| "child_values (Inr v # rs) = v # child_values rs"
| "child_values (Inl e # rs) = child_values rs"

fun first_thrown :: "(failure + jsval) list \<Rightarrow> jsval option" where
  "first_thrown [] = None"
| "first_thrown (Inl (Thrown x) # rs) = Some x"
| "first_thrown (Inl (VErr err) # rs) = first_thrown rs"
| "first_thrown (Inr v # rs) = first_thrown rs"

text \<open>
  The object rebuilt from keyed outcomes: an object schema stores every value that is
  not \<open>undefined\<close>, a record schema every value.
\<close>

fun build_object :: "(string \<times> (failure + jsval)) list \<Rightarrow> (string \<times> jsval) list \<Rightarrow> (string \<times> jsval) list" where
  "build_object [] acc = acc"
| "build_object ((k, Inr v) # rs) acc =
     build_object rs (if v \<noteq> JUndefined then property_write acc k v else acc)"
| "build_object ((k, Inl e) # rs) acc = build_object rs acc"

fun build_record :: "(string \<times> (failure + jsval)) list \<Rightarrow> (string \<times> jsval) list \<Rightarrow> (string \<times> jsval) list" where
  "build_record [] acc = acc"
| "build_record ((k, Inr v) # rs) acc = build_record rs (property_write acc k v)"
| "build_record ((k, Inl e) # rs) acc = build_record rs acc"

text \<open>
  What a container does with the outcomes of its children: a thrown value that is not a
  validation error goes through; otherwise one error with all collected issues, or the
  rebuilt container when there is none.
\<close>

definition aggregate :: "(failure + jsval) list \<Rightarrow> jsval \<Rightarrow> failure + jsval" where
  "aggregate rs container =
     (case first_thrown rs of
        Some x \<Rightarrow> Inl (Thrown x)
      | None \<Rightarrow>
         (if collected rs \<noteq> [] then Inl (VErr (new_ValidationError (collected rs)))
          else Inr container))"







text \<open>A call that returned.\<close>

fun returns :: "failure + jsval \<Rightarrow> bool" where
  "returns (Inr v) = True"
| "returns (Inl e) = False"

text \<open>The custom message of a schema.\<close>

fun customMessage :: "schema \<Rightarrow> string option" where
  "customMessage (StringSchema msg cs) = msg"
| "customMessage (CoercedStringSchema msg cs) = msg"
| "customMessage (NumberSchema msg cs) = msg"
| "customMessage (CoercedNumberSchema msg cs) = msg"
| "customMessage (BooleanSchema msg) = msg"
| "customMessage (CoercedBooleanSchema msg) = msg"
| "customMessage (ArraySchema msg cs item) = msg"
| "customMessage (ObjectSchema msg shape) = msg"
| "customMessage (EnumSchema msg vs) = msg"
| "customMessage (LiteralSchema msg v) = msg"
| "customMessage (UnionSchema msg ss) = msg"
| "customMessage (RecordSchema msg vs) = msg"
| "customMessage (DateSchema msg cs) = msg"
| "customMessage (OptionalSchema msg inner) = msg"
| "customMessage (NullableSchema msg inner) = msg"
| "customMessage (TransformSchema msg inner fn) = msg"

text \<open>
  The failure of a schema's own type or shape check on a value, as its default message:
  the places where \<open>parse\<close> calls \<open>fail\<close>. The wrappers have no check of their own.
\<close>

fun own_failure :: "host \<Rightarrow> schema \<Rightarrow> jsval \<Rightarrow> string \<Rightarrow> string option" where
  "own_failure h (StringSchema msg cs) d p =
     (case d of JStr s \<Rightarrow> None | _ \<Rightarrow> Some ''Expected string'')"
| "own_failure h (CoercedStringSchema msg cs) d p =
     (case d of JStr s \<Rightarrow> None | JNum x \<Rightarrow> None | JBool b \<Rightarrow> None | _ \<Rightarrow> Some ''Expected string'')"
| "own_failure h (NumberSchema msg cs) d p =
     (case d of JNum x \<Rightarrow> (if isNaN x then Some ''Expected number'' else None)
      | _ \<Rightarrow> Some ''Expected number'')"
| "own_failure h (CoercedNumberSchema msg cs) d p =
     (case d of
        JNum x \<Rightarrow> (if isNaN x then Some ''Expected number'' else None)
      | JStr s \<Rightarrow> (if trim s = [] \<or> isNaN (js_Number (trim s)) then Some ''Expected number'' else None)
      | _ \<Rightarrow> Some ''Expected number'')"
| "own_failure h (BooleanSchema msg) d p =
     (case d of JBool b \<Rightarrow> None | _ \<Rightarrow> Some ''Expected boolean'')"
| "own_failure h (CoercedBooleanSchema msg) d p =
     (case d of
        JBool b \<Rightarrow> None
      | JStr s \<Rightarrow>
         (if toLowerCase s \<in> set [''true'', ''1'', ''false'', ''0'', []] then None
          else Some ''Expected boolean'')
      | _ \<Rightarrow> Some ''Expected boolean'')"
| "own_failure h (ArraySchema msg cs item) d p =
     (case d of JArr xs \<Rightarrow> None | _ \<Rightarrow> Some ''Expected array'')"
| "own_failure h (ObjectSchema msg shape) d p =
     (if is_object d then None else Some ''Expected object'')"
| "own_failure h (RecordSchema msg valueSchema) d p =
     (if is_object d then None else Some ''Expected object'')"
| "own_failure h (EnumSchema msg vs) d p =
     (case d of
        JStr s \<Rightarrow> (if s \<in> set vs then None else Some (''Expected one of: '' @ join '', '' vs))
      | _ \<Rightarrow> Some (''Expected one of: '' @ join '', '' vs))"
| "own_failure h (LiteralSchema msg v) d p =
     (if strict_equal d v then None else Some (''Expected literal '' @ JSON_stringify v))"
| "own_failure h (UnionSchema msg schemas) d p =
     (if list_ex (\<lambda>s. returns (parse h s d p)) schemas then None
      else Some ''Value does not match any type in the union'')"
| "own_failure h (DateSchema msg cs) d p =
     (case d of
        JStr s \<Rightarrow> (case Date_parse h s of None \<Rightarrow> Some ''Invalid date'' | Some t \<Rightarrow> None)
      | _ \<Rightarrow> Some ''Expected date string'')"
| "own_failure h (OptionalSchema msg inner) d p = None"
| "own_failure h (NullableSchema msg inner) d p = None"
| "own_failure h (TransformSchema msg inner fn) d p = None"


text \<open>
  The transform functions of a schema, and a schema none of whose transform functions
  throws a \<open>ValidationError\<close>.
\<close>

function transform_functions :: "schema \<Rightarrow> (jsval \<Rightarrow> failure + jsval) list"
  and transform_functions_fields :: "(string \<times> schema) list \<Rightarrow> (jsval \<Rightarrow> failure + jsval) list"
  and transform_functions_all :: "schema list \<Rightarrow> (jsval \<Rightarrow> failure + jsval) list"
where
  "transform_functions (StringSchema msg cs) = []"
| "transform_functions (CoercedStringSchema msg cs) = []"
| "transform_functions (NumberSchema msg cs) = []"
| "transform_functions (CoercedNumberSchema msg cs) = []"
| "transform_functions (BooleanSchema msg) = []"
| "transform_functions (CoercedBooleanSchema msg) = []"
| "transform_functions (ArraySchema msg cs item) = transform_functions item"
| "transform_functions (ObjectSchema msg shape) = transform_functions_fields shape"
| "transform_functions (EnumSchema msg vs) = []"
| "transform_functions (LiteralSchema msg v) = []"
| "transform_functions (UnionSchema msg schemas) = transform_functions_all schemas"
| "transform_functions (RecordSchema msg valueSchema) = transform_functions valueSchema"
| "transform_functions (DateSchema msg cs) = []"
| "transform_functions (OptionalSchema msg inner) = transform_functions inner"
| "transform_functions (NullableSchema msg inner) = transform_functions inner"
| "transform_functions (TransformSchema msg inner fn) = fn # transform_functions inner"
| "transform_functions_fields [] = []"
| "transform_functions_fields ((key, fieldSchema) # rest) =
     transform_functions fieldSchema @ transform_functions_fields rest"
| "transform_functions_all [] = []"
| "transform_functions_all (s # ss) = transform_functions s @ transform_functions_all ss"
  by pat_completeness auto

termination
  apply (relation "inv_image (less_than <*lex*> less_than)
        (\<lambda>x. case x of
           Inl s \<Rightarrow> (size s, 1::nat)
         | Inr (Inl shape) \<Rightarrow> (size (ObjectSchema None shape), 0)
         | Inr (Inr schemas) \<Rightarrow> (size (UnionSchema None schemas), 0))")
   apply (intro wf_inv_image wf_lex_prod wf_less_than)
  apply simp_all
  done

definition throws_no_ValidationError :: "schema \<Rightarrow> bool" where
  "throws_no_ValidationError s =
     (\<forall>fn \<in> set (transform_functions s). \<forall>v err. fn v \<noteq> Inl (VErr err))"

text \<open>
  A validation error is anchored at a path when it has at least one issue, the path is
  a prefix of the path of every issue, and its summary message is the issue messages
  joined after \<open>Validation failed: \<close>.
\<close>

definition anchored :: "string \<Rightarrow> ValidationError \<Rightarrow> bool" where
  "anchored p err =
     (issues err \<noteq> [] \<and>
      list_all (\<lambda>i. prefix p (path i)) (issues err) \<and>
      error_message err = ''Validation failed: '' @ join '', '' (map message (issues err)))"

text \<open>
  What the rebuilt object holds under a key: the value the field returned, or nothing
  when the field failed, returned \<open>undefined\<close>, or is named \<open>__proto__\<close>.
\<close>

fun stored :: "string \<Rightarrow> failure + jsval \<Rightarrow> jsval" where
  "stored k (Inr v) = (if k = ''__proto__'' then JUndefined else v)"
| "stored k (Inl e) = JUndefined"

section \<open>Library functions\<close>

lemma double_bounds: "double_overflow = 2 ^ 1024 - 2 ^ 970"
  by (simp add: double_overflow_def)

lemma to_double_examples:
  "to_double 42 = 42"
  "to_double (1 / 10) = 3602879701896397 / 36028797018963968"
  "to_double 9007199254740993 = 9007199254740992"
  "to_double (- 9007199254740995) = - 9007199254740996"
  by code_simp+

section \<open>Coerced numbers\<close>

lemma number_checks_value: "number_checks cs x p = Inr v \<Longrightarrow> v = JNum x"
  by (induction cs x p rule: number_checks.induct) (auto split: if_splits)

text \<open>
  Claim C7. A coerced number schema takes a number as the number schema does (which
  rejects \<open>NaN\<close> and then runs the constraints), and on success returns it
  unchanged. A string is trimmed; an empty trimmed string fails with
  the type failure; otherwise the trimmed string is converted by \<open>Number\<close> and the
  number schema runs on the converted value, so that \<open>NaN\<close> fails with the type
  failure and the constraints see the converted number. A value that is neither a
  number nor a string fails with the type failure.
\<close>

theorem coerced_number_parse:
  "(parse h (CoercedNumberSchema msg cs) (JNum x) p = parse h (NumberSchema msg cs) (JNum x) p) \<and>
   (\<forall>v. parse h (CoercedNumberSchema msg cs) (JNum x) p = Inr v \<longrightarrow> v = JNum x) \<and>
   (trim s = [] \<longrightarrow> parse h (CoercedNumberSchema msg cs) (JStr s) p = fail msg p ''Expected number'') \<and>
   (trim s \<noteq> [] \<longrightarrow>
      parse h (CoercedNumberSchema msg cs) (JStr s) p =
      parse h (NumberSchema msg cs) (JNum (js_Number (trim s))) p) \<and>
   (trim s \<noteq> [] \<longrightarrow> isNaN (js_Number (trim s)) \<longrightarrow>
      parse h (CoercedNumberSchema msg cs) (JStr s) p = fail msg p ''Expected number'') \<and>
   (trim s \<noteq> [] \<longrightarrow> \<not> isNaN (js_Number (trim s)) \<longrightarrow>
      parse h (CoercedNumberSchema msg cs) (JStr s) p = number_checks cs (js_Number (trim s)) p) \<and>
   ((\<forall>y. d \<noteq> JNum y) \<longrightarrow> (\<forall>t. d \<noteq> JStr t) \<longrightarrow>
      parse h (CoercedNumberSchema msg cs) d p = fail msg p ''Expected number'')"
proof -
  have a: "parse h (CoercedNumberSchema msg cs) (JNum x) p = parse h (NumberSchema msg cs) (JNum x) p"
    by (simp add: CoercedNumberSchema_parse_def)
  have b: "\<forall>v. parse h (CoercedNumberSchema msg cs) (JNum x) p = Inr v \<longrightarrow> v = JNum x"
    by (auto simp add: CoercedNumberSchema_parse_def NumberSchema_parse_def fail_def
        split: if_splits dest: number_checks_value)
  have c: "trim s = [] \<longrightarrow> parse h (CoercedNumberSchema msg cs) (JStr s) p = fail msg p ''Expected number''"
    by (simp add: CoercedNumberSchema_parse_def)
  have d: "trim s \<noteq> [] \<longrightarrow>
      parse h (CoercedNumberSchema msg cs) (JStr s) p =
      parse h (NumberSchema msg cs) (JNum (js_Number (trim s))) p"
    by (simp add: CoercedNumberSchema_parse_def)
  have e: "trim s \<noteq> [] \<longrightarrow> isNaN (js_Number (trim s)) \<longrightarrow>
      parse h (CoercedNumberSchema msg cs) (JStr s) p = fail msg p ''Expected number''"
    by (simp add: CoercedNumberSchema_parse_def NumberSchema_parse_def)
  have f: "trim s \<noteq> [] \<longrightarrow> \<not> isNaN (js_Number (trim s)) \<longrightarrow>
      parse h (CoercedNumberSchema msg cs) (JStr s) p = number_checks cs (js_Number (trim s)) p"
    by (simp add: CoercedNumberSchema_parse_def NumberSchema_parse_def)
  have g: "(\<forall>y. d \<noteq> JNum y) \<longrightarrow> (\<forall>t. d \<noteq> JStr t) \<longrightarrow>
      parse h (CoercedNumberSchema msg cs) d p = fail msg p ''Expected number''"
    by (cases d) (simp_all add: CoercedNumberSchema_parse_def NumberSchema_parse_def)
  from a b c d e f g show ?thesis by blast
qed

theorem coerced_number_parse_witness:
  "\<forall>h. parse h (CoercedNumberSchema None []) (JStr []) [] = fail None [] ''Expected number'' \<and>
       parse h (CoercedNumberSchema None []) (JStr ''  '') [] = fail None [] ''Expected number'' \<and>
       parse h (CoercedNumberSchema None []) (JStr ''  42  '') [] = Inr (JNum (Fin 42)) \<and>
       parse h (CoercedNumberSchema None [NMin (Fin 50)]) (JStr ''  42  '') [] =
         Inl (raise_issue [] ''Number must be at least 50'') \<and>
       parse h (CoercedNumberSchema None []) (JStr ''12abc'') [] = fail None [] ''Expected number'' \<and>
       parse h (CoercedNumberSchema None []) (JBool True) [] = fail None [] ''Expected number''"
proof (intro allI conjI)
  fix h
  have e1: "trim [] = []" and e2: "trim ''  '' = []" and e3: "trim ''  42  '' \<noteq> []"
    and e4: "trim ''12abc'' \<noteq> []"
    by code_simp+
  have n3: "\<not> isNaN (js_Number (trim ''  42  ''))" and n4: "isNaN (js_Number (trim ''12abc''))"
    by code_simp+
  have c3: "number_checks [] (js_Number (trim ''  42  '')) [] = Inr (JNum (Fin 42))"
    and c4: "number_checks [NMin (Fin 50)] (js_Number (trim ''  42  '')) [] =
      Inl (raise_issue [] ''Number must be at least 50'')"
    by code_simp+
  show "parse h (CoercedNumberSchema None []) (JStr []) [] = fail None [] ''Expected number''"
    using coerced_number_parse [of h None "[]" _ "[]" "[]"] e1 by blast
  show "parse h (CoercedNumberSchema None []) (JStr ''  '') [] = fail None [] ''Expected number''"
    using coerced_number_parse [of h None "[]" _ "[]" "''  ''"] e2 by blast
  show "parse h (CoercedNumberSchema None []) (JStr ''  42  '') [] = Inr (JNum (Fin 42))"
    using coerced_number_parse [of h None "[]" _ "[]" "''  42  ''"] e3 n3 c3 by metis
  show "parse h (CoercedNumberSchema None [NMin (Fin 50)]) (JStr ''  42  '') [] =
         Inl (raise_issue [] ''Number must be at least 50'')"
    using coerced_number_parse [of h None "[NMin (Fin 50)]" _ "[]" "''  42  ''"] e3 n3 c4 by metis
  show "parse h (CoercedNumberSchema None []) (JStr ''12abc'') [] = fail None [] ''Expected number''"
    using coerced_number_parse [of h None "[]" _ "[]" "''12abc''"] e4 n4 by metis
  show "parse h (CoercedNumberSchema None []) (JBool True) [] = fail None [] ''Expected number''"
    using coerced_number_parse [of h None "[]" _ "[]" _ "JBool True"] by blast
qed

section \<open>Containers\<close>

text \<open>
  The loops of the three containers, in terms of the outcomes of the children taken one
  by one: the loop ends with the first thrown value that is not a validation error,
  and otherwise appends every child's issues and stores every child's value.
\<close>

lemma collected_simps:
  "collected [] = []"
  "collected (r # rs) = child_issues r @ collected rs"
  by (simp_all add: collected_def)

lemma parse_items_outcomes:
  "parse_items h item xs i p iss res =
     (let rs = map (\<lambda>(j, x). parse h item x (item_path p j)) (enumerate i xs) in
      case first_thrown rs of
        Some x \<Rightarrow> Inl x
      | None \<Rightarrow> Inr (iss @ collected rs, res @ child_values rs))"
proof (induction xs arbitrary: i iss res)
  case Nil
  show ?case by (simp add: collected_simps)
next
  case (Cons x xs)
  show ?case
  proof (cases "parse h item x (item_path p i)")
    case (Inr v)
    then show ?thesis using Cons.IH [of "i + 1" iss "res @ [v]"]
      by (simp add: collected_simps Let_def split: option.splits)
  next
    case (Inl e)
    then show ?thesis using Cons.IH [of "i + 1" _ res]
      by (cases e) (simp_all add: collected_simps Let_def split: option.splits)
  qed
qed

lemma parse_fields_outcomes:
  "parse_fields h shape obj p iss res =
     (let rs = object_children h shape obj p in
      case first_thrown rs of
        Some x \<Rightarrow> Inl x
      | None \<Rightarrow> Inr (iss @ collected rs, build_object (zip (map fst shape) rs) res))"
proof (induction shape arbitrary: iss res)
  case Nil
  show ?case by (simp add: collected_simps object_children_def)
next
  case (Cons ks shape)
  obtain key fieldSchema where ks: "ks = (key, fieldSchema)" by (cases ks)
  show ?case
  proof (cases "parse h fieldSchema (property_read h obj key) (field_path p key)")
    case (Inr v)
    then show ?thesis using Cons.IH
      by (simp add: ks collected_simps Let_def object_children_def split: option.splits)
  next
    case (Inl e)
    then show ?thesis using Cons.IH
      by (cases e) (simp_all add: ks collected_simps Let_def object_children_def split: option.splits)
  qed
qed

lemma parse_entries_outcomes:
  "parse_entries h valueSchema ents p iss res =
     (let rs = record_children h valueSchema ents p in
      case first_thrown rs of
        Some x \<Rightarrow> Inl x
      | None \<Rightarrow> Inr (iss @ collected rs, build_record (zip (map fst ents) rs) res))"
proof (induction ents arbitrary: iss res)
  case Nil
  show ?case by (simp add: collected_simps record_children_def)
next
  case (Cons kv ents)
  obtain key val where kv: "kv = (key, val)" by (cases kv)
  show ?case
  proof (cases "parse h valueSchema val (field_path p key)")
    case (Inr v)
    then show ?thesis using Cons.IH
      by (simp add: kv collected_simps Let_def record_children_def split: option.splits)
  next
    case (Inl e)
    then show ?thesis using Cons.IH
      by (cases e) (simp_all add: kv collected_simps Let_def record_children_def split: option.splits)
  qed
qed

text \<open>
  Claim C1, as amended. On an input that passes the container's own shape and length
  checks, an array, object or record schema takes the outcome of every child (every
  index in order, every declared key in the order of the shape, every entry of the
  input); when no child throws a value other than a validation error, the issues of all
  failing children are raised together as one validation error, in visit order, and the
  rebuilt container is returned only when no issue was collected. A value thrown by a
  child that is not a validation error is thrown on at once, whatever was collected.
\<close>

theorem container_aggregation:
  "(array_checks cs (length xs) p = None \<longrightarrow>
      parse h (ArraySchema msg cs item) (JArr xs) p =
        aggregate (array_children h item xs p) (JArr (child_values (array_children h item xs p)))) \<and>
   parse h (ObjectSchema msg shape) (JObj obj) p =
     aggregate (object_children h shape (JObj obj) p)
       (JObj (build_object (zip (map fst shape) (object_children h shape (JObj obj) p)) [])) \<and>
   parse h (RecordSchema msg valueSchema) (JObj obj) p =
     aggregate (record_children h valueSchema obj p)
       (JObj (build_record (zip (map fst obj) (record_children h valueSchema obj p)) []))"
proof (intro conjI impI)
  assume "array_checks cs (length xs) p = None"
  then show "parse h (ArraySchema msg cs item) (JArr xs) p =
      aggregate (array_children h item xs p) (JArr (child_values (array_children h item xs p)))"
    by (simp add: parse_items_outcomes array_children_def aggregate_def finish_def Let_def
        split: option.splits)
next
  show "parse h (ObjectSchema msg shape) (JObj obj) p =
     aggregate (object_children h shape (JObj obj) p)
       (JObj (build_object (zip (map fst shape) (object_children h shape (JObj obj) p)) []))"
    by (simp add: parse_fields_outcomes aggregate_def finish_def Let_def split: option.splits)
next
  show "parse h (RecordSchema msg valueSchema) (JObj obj) p =
     aggregate (record_children h valueSchema obj p)
       (JObj (build_record (zip (map fst obj) (record_children h valueSchema obj p)) []))"
    by (simp add: parse_entries_outcomes aggregate_def finish_def Let_def split: option.splits)
qed

theorem container_aggregation_witness:
  "\<forall>h. parse h (ArraySchema None [] (NumberSchema None [])) (JArr [JStr ''a'', JStr ''b'']) [] =
         Inl (VErr (new_ValidationError
           [\<lparr> path = ''[0]'', message = ''Expected number'' \<rparr>,
            \<lparr> path = ''[1]'', message = ''Expected number'' \<rparr>])) \<and>
       parse h (ObjectSchema None
           [(''name'', StringSchema None [SMin (Fin 1)]),
            (''age'', OptionalSchema None (NumberSchema None []))])
         (JObj [(''name'', JNum (Fin 123)), (''age'', JStr ''x'')]) [] =
         Inl (VErr (new_ValidationError
           [\<lparr> path = ''name'', message = ''Expected string'' \<rparr>,
            \<lparr> path = ''age'', message = ''Expected number'' \<rparr>])) \<and>
       parse h (RecordSchema None (NumberSchema None []))
         (JObj [(''a'', JNum (Fin 1)), (''b'', JNum (Fin 2))]) [] =
         Inr (JObj [(''a'', JNum (Fin 1)), (''b'', JNum (Fin 2))])"
proof (intro allI conjI)
  fix h
  let ?item = "NumberSchema None []"
  let ?xs = "[JStr ''a'', JStr ''b'']"
  have c: "array_checks [] (length ?xs) [] = None"
    by simp
  have a: "aggregate (array_children h ?item ?xs []) (JArr (child_values (array_children h ?item ?xs []))) =
      Inl (VErr (new_ValidationError
           [\<lparr> path = ''[0]'', message = ''Expected number'' \<rparr>,
            \<lparr> path = ''[1]'', message = ''Expected number'' \<rparr>]))"
    by code_simp
  show "parse h (ArraySchema None [] ?item) (JArr ?xs) [] =
         Inl (VErr (new_ValidationError
           [\<lparr> path = ''[0]'', message = ''Expected number'' \<rparr>,
            \<lparr> path = ''[1]'', message = ''Expected number'' \<rparr>]))"
    using container_aggregation [where h = h and cs = "[]" and xs = ?xs and p = "[]" and msg = None
        and item = ?item] c a
    by metis
  let ?shape = "[(''name'', StringSchema None [SMin (Fin 1)]),
            (''age'', OptionalSchema None (NumberSchema None []))]"
  let ?obj = "[(''name'', JNum (Fin 123)), (''age'', JStr ''x'')]"
  have b: "aggregate (object_children h ?shape (JObj ?obj) [])
       (JObj (build_object (zip (map fst ?shape) (object_children h ?shape (JObj ?obj) [])) [])) =
         Inl (VErr (new_ValidationError
           [\<lparr> path = ''name'', message = ''Expected string'' \<rparr>,
            \<lparr> path = ''age'', message = ''Expected number'' \<rparr>]))"
    by code_simp
  show "parse h (ObjectSchema None ?shape) (JObj ?obj) [] =
         Inl (VErr (new_ValidationError
           [\<lparr> path = ''name'', message = ''Expected string'' \<rparr>,
            \<lparr> path = ''age'', message = ''Expected number'' \<rparr>]))"
    using container_aggregation [where h = h and p = "[]" and msg = None and shape = ?shape
        and obj = ?obj] b
    by metis
  let ?ents = "[(''a'', JNum (Fin 1)), (''b'', JNum (Fin 2))]"
  have r: "aggregate (record_children h ?item ?ents [])
       (JObj (build_record (zip (map fst ?ents) (record_children h ?item ?ents [])) [])) =
       Inr (JObj ?ents)"
    by code_simp
  show "parse h (RecordSchema None ?item) (JObj ?ents) [] = Inr (JObj ?ents)"
    using container_aggregation [where h = h and p = "[]" and msg = None and valueSchema = ?item
        and obj = ?ents] r
    by metis
qed

text \<open>
  The claim without the amendment fails: the first element below yields an issue, the
  transform of the second throws, and the array schema raises the thrown value instead
  of a validation error with the collected issue.
\<close>

theorem container_thrown_counterexample:
  "\<forall>h. child_issues (parse h (TransformSchema None (StringSchema None []) (\<lambda>v. Inl (Thrown (JStr ''boom''))))
           (JNum (Fin 1)) ''[0]'') =
         [\<lparr> path = ''[0]'', message = ''Expected string'' \<rparr>] \<and>
       parse h (ArraySchema None [] (TransformSchema None (StringSchema None []) (\<lambda>v. Inl (Thrown (JStr ''boom'')))))
         (JArr [JNum (Fin 1), JStr ''a'']) [] = Inl (Thrown (JStr ''boom''))"
  by (intro allI conjI) code_simp+

section \<open>Thrown values and unions\<close>

text \<open>
  Claim C2 fails on the union schema. A value thrown by a transform function leaves
  \<open>parse\<close> of the transform schema, and of an array around it, unchanged; a union
  around it catches it like a validation error, and goes on to the next member or
  raises its own issue.
\<close>

theorem union_swallows_thrown_value:
  "\<forall>h. parse h (TransformSchema None (StringSchema None []) (\<lambda>v. Inl (Thrown (JStr ''boom'')))) (JStr ''a'') [] =
         Inl (Thrown (JStr ''boom'')) \<and>
       parse h (ArraySchema None [] (TransformSchema None (StringSchema None []) (\<lambda>v. Inl (Thrown (JStr ''boom'')))))
         (JArr [JStr ''a'']) [] = Inl (Thrown (JStr ''boom'')) \<and>
       parse h (UnionSchema None [TransformSchema None (StringSchema None []) (\<lambda>v. Inl (Thrown (JStr ''boom'')))])
         (JStr ''a'') [] =
         Inl (VErr (new_ValidationError
           [\<lparr> path = [], message = ''Value does not match any type in the union'' \<rparr>])) \<and>
       parse h (UnionSchema None
           [TransformSchema None (StringSchema None []) (\<lambda>v. Inl (Thrown (JStr ''boom''))), StringSchema None []])
         (JStr ''a'') [] = Inr (JStr ''a'')"
  by (intro allI conjI) code_simp+

section \<open>The required keys of an exported object\<close>

lemma toJsonSchema_fields_required:
  "snd (toJsonSchema_fields shape properties required) =
     required @ map fst (filter (\<lambda>(key, fieldSchema). \<not> instanceof_OptionalSchema fieldSchema) shape)"
  by (induction shape arbitrary: properties required) auto

text \<open>
  Claim C3 fails on the code: \<open>required\<close> leaves out a key only when the field
  schema itself is an optional wrapper. A field built as
  \<open>string().optional().nullable()\<close> is listed as required, although \<open>parse\<close>
  accepts an object without it.
\<close>

theorem optional_nullable_field_required:
  "required_keys (toJsonSchema (ObjectSchema None
       [(''a'', NullableSchema None (OptionalSchema None (StringSchema None [])))])) = [JStr ''a''] \<and>
   required_keys (toJsonSchema (ObjectSchema None
       [(''a'', OptionalSchema None (StringSchema None []))])) = [] \<and>
   (\<forall>h. parse h (ObjectSchema None
       [(''a'', NullableSchema None (OptionalSchema None (StringSchema None [])))]) (JObj []) [] =
       Inr (JObj []))"
  by (intro allI conjI) code_simp+

section \<open>Strings\<close>









section \<open>Unions\<close>

lemma parse_union_find:
  "(case parse_union h ss d p of Some v \<Rightarrow> Inr v | None \<Rightarrow> other) =
     (case List.find (\<lambda>s. returns (parse h s d p)) ss of
        Some s \<Rightarrow> parse h s d p
      | None \<Rightarrow> other)"
proof (induction ss)
  case Nil
  show ?case by simp
next
  case (Cons s ss)
  then show ?case by (cases "parse h s d p") simp_all
qed

text \<open>
  Claim C6, as amended. A union schema returns what the first member that returns gives,
  whatever the members before it raised; when no member returns it raises one validation
  error with a single issue at the current path, whose message is the custom message of
  the union when one is attached, and otherwise
  \<open>Value does not match any type in the union\<close>.
\<close>

theorem union_parse:
  "parse h (UnionSchema msg schemas) d p =
     (case List.find (\<lambda>s. returns (parse h s d p)) schemas of
        Some s \<Rightarrow> parse h s d p
      | None \<Rightarrow>
          Inl (VErr (new_ValidationError
            [\<lparr> path = p,
               message = (case msg of Some m \<Rightarrow> m
                          | None \<Rightarrow> ''Value does not match any type in the union'') \<rparr>])))"
  using parse_union_find [where h = h and ss = schemas and d = d and p = p]
  by (simp add: fail_def split: option.splits)

theorem union_parse_witness:
  "\<forall>h. parse h (UnionSchema None [StringSchema None [], NumberSchema None []]) (JNum (Fin 42)) [] =
         Inr (JNum (Fin 42)) \<and>
       parse h (UnionSchema None [StringSchema None [], NumberSchema None []]) (JBool True) [] =
         Inl (VErr (new_ValidationError
           [\<lparr> path = [], message = ''Value does not match any type in the union'' \<rparr>]))"
proof (intro allI conjI)
  fix h
  have f1: "List.find (\<lambda>s. returns (parse h s (JNum (Fin 42)) []))
      [StringSchema None [], NumberSchema None []] = Some (NumberSchema None [])"
    and r1: "parse h (NumberSchema None []) (JNum (Fin 42)) [] = Inr (JNum (Fin 42))"
    and f2: "List.find (\<lambda>s. returns (parse h s (JBool True) []))
      [StringSchema None [], NumberSchema None []] = None"
    by (simp_all add: StringSchema_parse_def NumberSchema_parse_def fail_def)
  show "parse h (UnionSchema None [StringSchema None [], NumberSchema None []]) (JNum (Fin 42)) [] =
         Inr (JNum (Fin 42))"
    using union_parse [where h = h and msg = None and schemas = "[StringSchema None [], NumberSchema None []]" and d = "JNum (Fin 42)" and p = "[]"]
    by (simp only: f1 r1 option.case)
  show "parse h (UnionSchema None [StringSchema None [], NumberSchema None []]) (JBool True) [] =
         Inl (VErr (new_ValidationError
           [\<lparr> path = [], message = ''Value does not match any type in the union'' \<rparr>]))"
    using union_parse [where h = h and msg = None and schemas = "[StringSchema None [], NumberSchema None []]" and d = "JBool True" and p = "[]"]
    by (simp only: f2 option.case)
qed

text \<open>
  The claim fixes the message of the issue; with a custom message attached to the union
  the issue carries that message instead.
\<close>

theorem union_message_counterexample:
  "\<forall>h. parse h (UnionSchema (Some ''nope'') [StringSchema None [], NumberSchema None []]) (JBool True) [] =
         Inl (VErr (new_ValidationError [\<lparr> path = [], message = ''nope'' \<rparr>])) \<and>
       ''nope'' \<noteq> ''Value does not match any type in the union''"
proof (intro allI conjI)
  fix h
  show "parse h (UnionSchema (Some ''nope'') [StringSchema None [], NumberSchema None []]) (JBool True) [] =
         Inl (VErr (new_ValidationError [\<lparr> path = [], message = ''nope'' \<rparr>]))"
    by code_simp
  show "''nope'' \<noteq> ''Value does not match any type in the union''"
    by simp
qed

section \<open>Validation errors\<close>

text \<open>Every error the leaves raise is anchored at the path they were called with.\<close>

lemma anchored_new:
  "iss \<noteq> [] \<Longrightarrow> list_all (\<lambda>i. prefix p (path i)) iss \<Longrightarrow> anchored p (new_ValidationError iss)"
  by (simp add: anchored_def new_ValidationError_def)

lemma anchored_fail: "fail msg p dflt = Inl (VErr err) \<Longrightarrow> anchored p err"
  by (auto simp add: fail_def intro!: anchored_new)

lemma fail_not_other [simp]: "fail msg p dflt \<noteq> Inl (Thrown x)" "fail msg p dflt \<noteq> Inr v"
  by (simp_all add: fail_def)

lemma anchored_raise_issue: "raise_issue p m = VErr err \<Longrightarrow> anchored p err"
  by (auto simp add: raise_issue_def intro!: anchored_new)

lemma anchored_string_checks: "string_checks cs s p = Inl (VErr err) \<Longrightarrow> anchored p err"
  by (induction cs s p rule: string_checks.induct)
     (auto split: if_splits dest: anchored_raise_issue)

lemma anchored_number_checks: "number_checks cs x p = Inl (VErr err) \<Longrightarrow> anchored p err"
  by (induction cs x p rule: number_checks.induct)
     (auto split: if_splits dest: anchored_raise_issue)

lemma anchored_array_checks: "array_checks cs n p = Some (VErr err) \<Longrightarrow> anchored p err"
  by (induction cs n p rule: array_checks.induct)
     (auto split: if_splits dest: anchored_raise_issue)

lemma anchored_date_checks: "date_checks h cs t p = Inl (VErr err) \<Longrightarrow> anchored p err"
  by (induction h cs t p rule: date_checks.induct)
     (auto split: if_splits option.splits dest: anchored_raise_issue)

lemma anchored_StringSchema: "StringSchema_parse msg cs d p = Inl (VErr err) \<Longrightarrow> anchored p err"
  by (auto simp add: StringSchema_parse_def split: jsval.splits
      dest: anchored_fail anchored_string_checks)

lemma anchored_NumberSchema: "NumberSchema_parse msg cs d p = Inl (VErr err) \<Longrightarrow> anchored p err"
  by (auto simp add: NumberSchema_parse_def split: jsval.splits if_splits
      dest: anchored_fail anchored_number_checks)

lemma anchored_BooleanSchema: "BooleanSchema_parse msg d p = Inl (VErr err) \<Longrightarrow> anchored p err"
  by (auto simp add: BooleanSchema_parse_def split: jsval.splits dest: anchored_fail)

lemma anchored_CoercedStringSchema:
  "CoercedStringSchema_parse msg cs d p = Inl (VErr err) \<Longrightarrow> anchored p err"
  by (auto simp add: CoercedStringSchema_parse_def split: jsval.splits dest: anchored_StringSchema)

lemma anchored_CoercedNumberSchema:
  "CoercedNumberSchema_parse msg cs d p = Inl (VErr err) \<Longrightarrow> anchored p err"
  by (auto simp add: CoercedNumberSchema_parse_def Let_def split: jsval.splits if_splits
      dest: anchored_NumberSchema anchored_fail)

lemma anchored_CoercedBooleanSchema:
  "CoercedBooleanSchema_parse msg d p = Inl (VErr err) \<Longrightarrow> anchored p err"
  by (auto simp add: CoercedBooleanSchema_parse_def Let_def split: jsval.splits if_splits
      dest: anchored_BooleanSchema anchored_fail)

lemma anchored_EnumSchema: "EnumSchema_parse msg vs d p = Inl (VErr err) \<Longrightarrow> anchored p err"
  by (auto simp add: EnumSchema_parse_def split: jsval.splits if_splits dest: anchored_fail)

lemma anchored_LiteralSchema: "LiteralSchema_parse msg v d p = Inl (VErr err) \<Longrightarrow> anchored p err"
  by (auto simp add: LiteralSchema_parse_def split: if_splits dest: anchored_fail)

lemma anchored_DateSchema: "DateSchema_parse h msg cs d p = Inl (VErr err) \<Longrightarrow> anchored p err"
  by (auto simp add: DateSchema_parse_def split: jsval.splits option.splits
      dest: anchored_fail anchored_date_checks)

lemma prefix_item_path: "prefix p (item_path p i)"
  by (simp add: item_path_def)

lemma prefix_field_path: "prefix p (field_path p key)"
  by (simp add: field_path_def)

lemma collected_member:
  "x \<in> set (collected rs) \<Longrightarrow> \<exists>err. Inl (VErr err) \<in> set rs \<and> x \<in> set (issues err)"
proof (induction rs)
  case Nil
  then show ?case by (simp add: collected_def)
next
  case (Cons r rs)
  then show ?case
    by (cases r rule: child_issues.cases) (auto simp add: collected_def)
qed

lemma anchored_aggregate:
  assumes "aggregate rs c = Inl (VErr err)"
    and "\<And>e. Inl (VErr e) \<in> set rs \<Longrightarrow> \<exists>q. prefix p q \<and> anchored q e"
  shows "anchored p err"
proof -
  from assms(1) have ne: "collected rs \<noteq> []" and err: "err = new_ValidationError (collected rs)"
    by (auto simp add: aggregate_def split: option.splits if_splits)
  have "prefix p (path x)" if "x \<in> set (collected rs)" for x
  proof -
    from collected_member [OF that] obtain e where e: "Inl (VErr e) \<in> set rs" "x \<in> set (issues e)"
      by blast
    from assms(2) [OF e(1)] obtain q where q: "prefix p q" "anchored q e" by blast
    from q(2) e(2) have "prefix q (path x)"
      by (simp add: anchored_def list_all_iff)
    with q(1) show ?thesis by (rule prefix_order.trans)
  qed
  then have "list_all (\<lambda>i. prefix p (path i)) (collected rs)"
    by (simp add: list_all_iff)
  with ne err show ?thesis by (simp add: anchored_new)
qed

text \<open>\<open>parse\<close> of the containers, in terms of the outcomes of the children.\<close>

lemma parse_ArraySchema:
  "parse h (ArraySchema msg cs item) d p =
     (case d of
        JArr xs \<Rightarrow>
          (case array_checks cs (length xs) p of
             Some e \<Rightarrow> Inl e
           | None \<Rightarrow>
               aggregate (array_children h item xs p)
                 (JArr (child_values (array_children h item xs p))))
      | _ \<Rightarrow> fail msg p ''Expected array'')"
  by (simp add: parse_items_outcomes array_children_def aggregate_def finish_def Let_def
      split: jsval.splits option.splits)

lemma parse_ObjectSchema:
  "parse h (ObjectSchema msg shape) d p =
     (if is_object d then
        aggregate (object_children h shape d p)
          (JObj (build_object (zip (map fst shape) (object_children h shape d p)) []))
      else fail msg p ''Expected object'')"
  by (simp add: parse_fields_outcomes aggregate_def finish_def Let_def split: option.splits)

lemma parse_RecordSchema:
  "parse h (RecordSchema msg valueSchema) d p =
     (if is_object d then
        aggregate (record_children h valueSchema (Object_entries d) p)
          (JObj (build_record (zip (map fst (Object_entries d))
             (record_children h valueSchema (Object_entries d) p)) []))
      else fail msg p ''Expected object'')"
  by (simp add: parse_entries_outcomes aggregate_def finish_def Let_def split: option.splits)

text \<open>The transform functions of the children are among those of the container.\<close>

lemma transform_functions_fields_set:
  "set (transform_functions_fields shape) =
     (\<Union>(key, fieldSchema) \<in> set shape. set (transform_functions fieldSchema))"
  by (induction shape) auto

lemma throws_no_ValidationError_item:
  "throws_no_ValidationError (ArraySchema msg cs item) \<Longrightarrow> throws_no_ValidationError item"
  by (simp add: throws_no_ValidationError_def)

lemma throws_no_ValidationError_value:
  "throws_no_ValidationError (RecordSchema msg valueSchema) \<Longrightarrow> throws_no_ValidationError valueSchema"
  by (simp add: throws_no_ValidationError_def)

lemma throws_no_ValidationError_field:
  "throws_no_ValidationError (ObjectSchema msg shape) \<Longrightarrow> (key, fieldSchema) \<in> set shape \<Longrightarrow>
     throws_no_ValidationError fieldSchema"
  by (force simp add: throws_no_ValidationError_def transform_functions_fields_set)

lemma throws_no_ValidationError_inner:
  "throws_no_ValidationError (OptionalSchema msg inner) \<Longrightarrow> throws_no_ValidationError inner"
  "throws_no_ValidationError (NullableSchema msg inner) \<Longrightarrow> throws_no_ValidationError inner"
  "throws_no_ValidationError (TransformSchema msg inner fn) \<Longrightarrow> throws_no_ValidationError inner"
  "throws_no_ValidationError (TransformSchema msg inner fn) \<Longrightarrow> fn v \<noteq> Inl (VErr err)"
  by (simp_all add: throws_no_ValidationError_def)

text \<open>The invariant, by induction on the schema.\<close>

lemma parse_error_anchored:
  "throws_no_ValidationError s \<Longrightarrow> parse h s d p = Inl (VErr err) \<Longrightarrow> anchored p err"
proof (induction s arbitrary: d p err)
  case (StringSchema msg cs)
  then show ?case by (auto dest: anchored_StringSchema)
next
  case (CoercedStringSchema msg cs)
  then show ?case by (auto dest: anchored_CoercedStringSchema)
next
  case (NumberSchema msg cs)
  then show ?case by (auto dest: anchored_NumberSchema)
next
  case (CoercedNumberSchema msg cs)
  then show ?case by (auto dest: anchored_CoercedNumberSchema)
next
  case (BooleanSchema msg)
  then show ?case by (auto dest: anchored_BooleanSchema)
next
  case (CoercedBooleanSchema msg)
  then show ?case by (auto dest: anchored_CoercedBooleanSchema)
next
  case (ArraySchema msg cs item)
  note item = throws_no_ValidationError_item [OF ArraySchema.prems(1)]
  note raised = ArraySchema.prems(2) [unfolded parse_ArraySchema]
  show ?case
  proof (cases d)
    case (JArr xs)
    show ?thesis
    proof (cases "array_checks cs (length xs) p")
      case None
      with JArr raised
      have agg: "aggregate (array_children h item xs p)
          (JArr (child_values (array_children h item xs p))) = Inl (VErr err)"
        by simp
      show ?thesis
      proof (rule anchored_aggregate [OF agg])
        fix e
        assume "Inl (VErr e) \<in> set (array_children h item xs p)"
        then obtain j x where "parse h item x (item_path p j) = Inl (VErr e)"
          by (auto simp add: array_children_def)
        with item have "anchored (item_path p j) e" by (rule ArraySchema.IH)
        then show "\<exists>q. prefix p q \<and> anchored q e"
          using prefix_item_path by blast
      qed
    next
      case (Some e)
      with JArr raised show ?thesis
        by (auto dest: anchored_array_checks)
    qed
  qed (use raised in \<open>auto dest: anchored_fail\<close>)
next
  case (ObjectSchema msg shape)
  note raised = ObjectSchema.prems(2) [unfolded parse_ObjectSchema]
  show ?case
  proof (cases "is_object d")
    case True
    with raised
    have agg: "aggregate (object_children h shape d p)
        (JObj (build_object (zip (map fst shape) (object_children h shape d p)) [])) = Inl (VErr err)"
      by simp
    show ?thesis
    proof (rule anchored_aggregate [OF agg])
      fix e
      assume "Inl (VErr e) \<in> set (object_children h shape d p)"
      then obtain key fieldSchema where ks: "(key, fieldSchema) \<in> set shape"
        and r: "parse h fieldSchema (property_read h d key) (field_path p key) = Inl (VErr e)"
        by (auto simp add: object_children_def)
      from ks have sn: "fieldSchema \<in> Basic_BNFs.snds (key, fieldSchema)" by simp
      note field = throws_no_ValidationError_field [OF ObjectSchema.prems(1) ks]
      have "anchored (field_path p key) e" by (rule ObjectSchema.IH [OF ks sn field r])
      then show "\<exists>q. prefix p q \<and> anchored q e"
        using prefix_field_path by blast
    qed
  next
    case False
    with raised show ?thesis by (auto dest: anchored_fail)
  qed
next
  case (EnumSchema msg vs)
  then show ?case by (auto dest: anchored_EnumSchema)
next
  case (LiteralSchema msg v)
  then show ?case by (auto dest: anchored_LiteralSchema)
next
  case (UnionSchema msg schemas)
  then show ?case by (auto split: option.splits dest: anchored_fail)
next
  case (RecordSchema msg valueSchema)
  note val = throws_no_ValidationError_value [OF RecordSchema.prems(1)]
  note raised = RecordSchema.prems(2) [unfolded parse_RecordSchema]
  show ?case
  proof (cases "is_object d")
    case True
    with raised
    have agg: "aggregate (record_children h valueSchema (Object_entries d) p)
        (JObj (build_record (zip (map fst (Object_entries d))
           (record_children h valueSchema (Object_entries d) p)) [])) = Inl (VErr err)"
      by simp
    show ?thesis
    proof (rule anchored_aggregate [OF agg])
      fix e
      assume "Inl (VErr e) \<in> set (record_children h valueSchema (Object_entries d) p)"
      then obtain key val where "parse h valueSchema val (field_path p key) = Inl (VErr e)"
        by (auto simp add: record_children_def)
      with val have "anchored (field_path p key) e" by (rule RecordSchema.IH)
      then show "\<exists>q. prefix p q \<and> anchored q e"
        using prefix_field_path by blast
    qed
  next
    case False
    with raised show ?thesis by (auto dest: anchored_fail)
  qed
next
  case (DateSchema msg cs)
  then show ?case by (auto dest: anchored_DateSchema)
next
  case (OptionalSchema msg inner)
  then show ?case by (auto split: if_splits dest: throws_no_ValidationError_inner(1))
next
  case (NullableSchema msg inner)
  then show ?case by (auto split: if_splits dest: throws_no_ValidationError_inner(2))
next
  case (TransformSchema msg inner fn)
  note inner = throws_no_ValidationError_inner(3) [OF TransformSchema.prems(1)]
  note fn = throws_no_ValidationError_inner(4) [OF TransformSchema.prems(1)]
  show ?case
  proof (cases "parse h inner d p")
    case (Inl e)
    with TransformSchema.prems(2) have "parse h inner d p = Inl (VErr err)" by simp
    with inner show ?thesis by (rule TransformSchema.IH)
  next
    case (Inr v)
    with TransformSchema.prems(2) have "fn v = Inl (VErr err)" by simp
    with fn show ?thesis by simp
  qed
qed

text \<open>
  Claim C8, as amended. For a schema none of whose transform functions throws a
  \<open>ValidationError\<close> itself: whenever \<open>parse\<close>, called with a path, raises a
  validation error, the error has at least one issue, the path is a prefix of the path
  of every issue, and the summary message is the issue messages joined with \<open>, \<close>
  after \<open>Validation failed: \<close>.
\<close>

theorem validation_error_anchored:
  "throws_no_ValidationError s \<Longrightarrow> parse h s d p = Inl (VErr err) \<Longrightarrow>
     issues err \<noteq> [] \<and>
     (\<forall>i \<in> set (issues err). prefix p (path i)) \<and>
     error_message err = ''Validation failed: '' @ join '', '' (map message (issues err))"
  using parse_error_anchored [of s h d p err] by (simp add: anchored_def list_all_iff)

theorem validation_error_anchored_witness:
  "\<forall>h. parse h (ObjectSchema None
           [(''address'', ObjectSchema None
              [(''city'', TransformSchema None (StringSchema None []) (\<lambda>v. Inr (JArr [v])))])])
         (JObj [(''address'', JObj [(''city'', JNum (Fin 123))])]) ''r'' =
         Inl (VErr \<lparr> error_message = ''Validation failed: Expected string'',
                     issues = [\<lparr> path = ''r.address.city'', message = ''Expected string'' \<rparr>] \<rparr>) \<and>
       prefix ''r'' ''r.address.city''"
proof (intro allI conjI)
  fix h
  let ?s = "ObjectSchema None
           [(''address'', ObjectSchema None
              [(''city'', TransformSchema None (StringSchema None []) (\<lambda>v. Inr (JArr [v])))])]"
  let ?d = "JObj [(''address'', JObj [(''city'', JNum (Fin 123))])]"
  let ?e = "\<lparr> error_message = ''Validation failed: Expected string'',
                     issues = [\<lparr> path = ''r.address.city'', message = ''Expected string'' \<rparr>] \<rparr>"
  have ok: "throws_no_ValidationError ?s"
    by (simp add: throws_no_ValidationError_def)
  show eq: "parse h ?s ?d ''r'' = Inl (VErr ?e)"
    by code_simp
  from validation_error_anchored [OF ok eq] show "prefix ''r'' ''r.address.city''"
    by simp
qed

text \<open>
  The claim without the condition fails: a transform function can throw a
  \<open>ValidationError\<close> of its own, with no issue or with an issue at any path, and it
  leaves \<open>parse\<close> as it is; an array schema around it adopts the foreign issue.
\<close>

theorem thrown_validation_error_counterexample:
  "\<forall>h. parse h (TransformSchema None (StringSchema None []) (\<lambda>v. Inl (VErr (new_ValidationError []))))
         (JStr ''a'') ''p'' = Inl (VErr (new_ValidationError [])) \<and>
       issues (new_ValidationError []) = [] \<and>
       parse h (ArraySchema None []
           (TransformSchema None (StringSchema None [])
              (\<lambda>v. Inl (VErr (new_ValidationError [\<lparr> path = ''zzz'', message = ''no'' \<rparr>])))))
         (JArr [JStr ''a'']) ''p'' =
         Inl (VErr (new_ValidationError [\<lparr> path = ''zzz'', message = ''no'' \<rparr>])) \<and>
       \<not> prefix ''p'' ''zzz''"
proof (intro allI conjI)
  fix h
  show "parse h (TransformSchema None (StringSchema None []) (\<lambda>v. Inl (VErr (new_ValidationError []))))
         (JStr ''a'') ''p'' = Inl (VErr (new_ValidationError []))"
    by code_simp
  show "issues (new_ValidationError []) = []"
    by (simp add: new_ValidationError_def)
  show "parse h (ArraySchema None []
           (TransformSchema None (StringSchema None [])
              (\<lambda>v. Inl (VErr (new_ValidationError [\<lparr> path = ''zzz'', message = ''no'' \<rparr>])))))
         (JArr [JStr ''a'']) ''p'' =
         Inl (VErr (new_ValidationError [\<lparr> path = ''zzz'', message = ''no'' \<rparr>]))"
    by code_simp
  show "\<not> prefix ''p'' ''zzz''"
    by simp
qed

section \<open>The object an object schema returns\<close>

lemma obj_get_absent: "k \<notin> fst ` set fs \<Longrightarrow> obj_get fs k = JUndefined"
  by (induction fs) auto

lemma obj_get_obj_set: "obj_get (obj_set fs k v) k' = (if k' = k then v else obj_get fs k')"
  by (induction fs) auto

lemma keys_obj_set: "fst ` set (obj_set fs k v) = insert k (fst ` set fs)"
proof (induction fs)
  case Nil
  show ?case by simp
next
  case (Cons a fs)
  obtain k' v' where a: "a = (k', v')" by (cases a)
  show ?case
  proof (cases "k' = k")
    case True
    then show ?thesis by (simp add: a)
  next
    case False
    with Cons show ?thesis by (auto simp add: a)
  qed
qed

lemma distinct_obj_set: "distinct (map fst fs) \<Longrightarrow> distinct (map fst (obj_set fs k v))"
proof (induction fs)
  case Nil
  show ?case by simp
next
  case (Cons a fs)
  obtain k' v' where a: "a = (k', v')" by (cases a)
  show ?case
  proof (cases "k' = k")
    case True
    with Cons.prems show ?thesis by (simp add: a)
  next
    case False
    from Cons have "distinct (map fst (obj_set fs k v))" by simp
    moreover from Cons.prems False have "k' \<notin> fst ` set (obj_set fs k v)"
      by (simp add: keys_obj_set a)
    ultimately show ?thesis using False by (simp add: a)
  qed
qed

lemma values_obj_set: "snd ` set (obj_set fs k v) \<subseteq> insert v (snd ` set fs)"
proof (induction fs)
  case Nil
  show ?case by simp
next
  case (Cons a fs)
  obtain k' v' where a: "a = (k', v')" by (cases a)
  show ?case
  proof (cases "k' = k")
    case True
    then show ?thesis by (auto simp add: a)
  next
    case False
    with Cons show ?thesis by (auto simp add: a)
  qed
qed

lemma keys_property_write:
  "fst ` set (property_write fs k v) \<subseteq> insert k (fst ` set fs)"
  "fst ` set fs \<subseteq> fst ` set (property_write fs k v)"
  by (auto simp add: property_write_def keys_obj_set)

lemma distinct_property_write:
  "distinct (map fst fs) \<Longrightarrow> distinct (map fst (property_write fs k v))"
  by (simp add: property_write_def distinct_obj_set)

lemma values_property_write: "snd ` set (property_write fs k v) \<subseteq> insert v (snd ` set fs)"
  using values_obj_set [of fs k v] by (auto simp add: property_write_def)

lemma obj_get_property_write:
  "obj_get (property_write fs k v) k' =
     (if k' = k \<and> k \<noteq> ''__proto__'' then v else obj_get fs k')"
  by (simp add: property_write_def obj_get_obj_set)

lemma build_object_keys:
  "fst ` set (build_object krs acc) \<subseteq> fst ` set acc \<union> fst ` set krs"
proof (induction krs acc rule: build_object.induct)
  case (1 acc)
  show ?case by simp
next
  case (2 k v rs acc)
  show ?case
  proof (cases "v = JUndefined")
    case True
    with 2 show ?thesis by auto
  next
    case False
    with "2.IH" have "fst ` set (build_object rs (property_write acc k v)) \<subseteq>
        fst ` set (property_write acc k v) \<union> fst ` set rs"
      by simp
    moreover note keys_property_write(1) [of acc k v]
    moreover have "build_object ((k, Inr v) # rs) acc = build_object rs (property_write acc k v)"
      using False by simp
    moreover have "fst ` set ((k, Inr v) # rs) = insert k (fst ` set rs)"
      by simp
    ultimately show ?thesis
      by (simp only:) blast
  qed
next
  case (3 k e rs acc)
  then show ?case by auto
qed

lemma build_object_distinct:
  "distinct (map fst acc) \<Longrightarrow> distinct (map fst (build_object krs acc))"
  by (induction krs acc rule: build_object.induct) (simp_all add: distinct_property_write)

lemma build_object_defined:
  "JUndefined \<notin> snd ` set acc \<Longrightarrow> JUndefined \<notin> snd ` set (build_object krs acc)"
proof (induction krs acc rule: build_object.induct)
  case (1 acc)
  then show ?case by simp
next
  case (2 k v rs acc)
  show ?case
  proof (cases "v = JUndefined")
    case True
    with 2 show ?thesis by simp
  next
    case False
    with "2.prems" values_property_write [of acc k v]
    have "JUndefined \<notin> snd ` set (property_write acc k v)"
      by auto
    with False "2.IH" show ?thesis by simp
  qed
next
  case (3 k e rs acc)
  then show ?case by simp
qed

lemma build_object_other:
  "k \<notin> fst ` set krs \<Longrightarrow> obj_get (build_object krs acc) k = obj_get acc k"
  by (induction krs acc rule: build_object.induct) (auto simp add: obj_get_property_write)

lemma build_object_get:
  "distinct (map fst krs) \<Longrightarrow> (k, r) \<in> set krs \<Longrightarrow> k \<notin> fst ` set acc \<Longrightarrow>
     obj_get (build_object krs acc) k = stored k r"
proof (induction krs arbitrary: acc)
  case Nil
  then show ?case by simp
next
  case (Cons a krs)
  obtain k' r' where a: "a = (k', r')" by (cases a)
  show ?case
  proof (cases "k' = k")
    case True
    with Cons.prems a have r: "r' = r" and nk: "k \<notin> fst ` set krs"
      by (auto simp add: rev_image_eqI)
    have absent: "obj_get acc k = JUndefined"
      using Cons.prems(3) by (rule obj_get_absent)
    show ?thesis
    proof (cases r)
      case (Inl e)
      with True a r nk absent show ?thesis by (simp add: build_object_other)
    next
      case (Inr v)
      with True a r nk absent show ?thesis
        by (auto simp add: build_object_other obj_get_property_write)
    qed
  next
    case False
    with Cons.prems a have mem: "(k, r) \<in> set krs" and dist: "distinct (map fst krs)"
      by auto
    show ?thesis
    proof (cases r')
      case (Inl e)
      with a Cons.IH [OF dist mem Cons.prems(3)] show ?thesis by simp
    next
      case (Inr v)
      from False Cons.prems(3) keys_property_write(1) [of acc k' v]
      have "k \<notin> fst ` set (if v \<noteq> JUndefined then property_write acc k' v else acc)"
        by auto
      from Cons.IH [OF dist mem this] a Inr show ?thesis by simp
    qed
  qed
qed

lemma first_thrown_None: "first_thrown rs = None \<Longrightarrow> Inl (Thrown x) \<notin> set rs"
  by (induction rs rule: first_thrown.induct) auto

lemma collected_subset: "Inl (VErr e) \<in> set rs \<Longrightarrow> set (issues e) \<subseteq> set (collected rs)"
  by (auto simp add: collected_def intro!: bexI [where x = "Inl (VErr e)"])

lemma aggregate_returns:
  assumes "aggregate rs c = Inr out"
  shows "out = c" and "first_thrown rs = None" and "collected rs = []"
  using assms by (auto simp add: aggregate_def split: option.splits if_splits)

lemma zip_keys_children:
  "zip (map fst shape) (object_children h shape d p) =
     map (\<lambda>(key, fieldSchema). (key, parse h fieldSchema (property_read h d key) (field_path p key))) shape"
  by (induction shape) (auto simp add: object_children_def)

lemma object_children_outcome:
  assumes "first_thrown (object_children h shape d p) = None"
    and "collected (object_children h shape d p) = []"
    and "(key, fieldSchema) \<in> set shape"
  shows "(\<exists>v. parse h fieldSchema (property_read h d key) (field_path p key) = Inr v) \<or>
    (\<exists>err. parse h fieldSchema (property_read h d key) (field_path p key) = Inl (VErr err) \<and>
       issues err = [])"
proof (cases "parse h fieldSchema (property_read h d key) (field_path p key)")
  case (Inr v)
  then show ?thesis by simp
next
  case (Inl e)
  from assms(3) have mem: "parse h fieldSchema (property_read h d key) (field_path p key) \<in>
      set (object_children h shape d p)"
    by (force simp add: object_children_def)
  show ?thesis
  proof (cases e)
    case (Thrown x)
    with Inl mem first_thrown_None [OF assms(1)] show ?thesis by simp
  next
    case (VErr err)
    with Inl mem have "set (issues err) \<subseteq> set (collected (object_children h shape d p))"
      by (simp add: collected_subset)
    with assms(2) VErr Inl show ?thesis by simp
  qed
qed

text \<open>
  Claim C4. What an object schema returns is an object built from the shape: its keys
  are keys of the shape, so that keys of the input that the shape does not declare are
  absent, and no key is stored with the value \<open>undefined\<close>. The keys of the shape
  being distinct, reading a declared key (other than \<open>__proto__\<close>, which is never
  stored) from it gives the value the field's schema returned, which is \<open>undefined\<close>
  exactly for the omitted keys; the one other way for a key to be omitted is a transform
  function of the field that throws a validation error without issues. The input is an
  argument of a function and is not changed.
\<close>

theorem object_output:
  assumes "parse h (ObjectSchema msg shape) d p = Inr out"
  shows "\<exists>fs. out = JObj fs \<and>
           distinct (map fst fs) \<and>
           set (map fst fs) \<subseteq> set (map fst shape) \<and>
           JUndefined \<notin> set (map snd fs) \<and>
           (distinct (map fst shape) \<longrightarrow>
              (\<forall>(key, fieldSchema) \<in> set shape. key \<noteq> ''__proto__'' \<longrightarrow>
                 parse h fieldSchema (property_read h d key) (field_path p key) = Inr (obj_get fs key) \<or>
                 (\<exists>err. parse h fieldSchema (property_read h d key) (field_path p key) = Inl (VErr err) \<and>
                    issues err = [] \<and> obj_get fs key = JUndefined))) \<and>
           (distinct (map fst shape) \<longrightarrow> throws_no_ValidationError (ObjectSchema msg shape) \<longrightarrow>
              (\<forall>(key, fieldSchema) \<in> set shape. key \<noteq> ''__proto__'' \<longrightarrow>
                 parse h fieldSchema (property_read h d key) (field_path p key) = Inr (obj_get fs key)))"
proof -
  let ?rs = "object_children h shape d p"
  let ?krs = "zip (map fst shape) ?rs"
  let ?fs = "build_object ?krs []"
  from assms have obj: "is_object d" and agg: "aggregate ?rs (JObj ?fs) = Inr out"
    unfolding parse_ObjectSchema by (auto split: if_splits)
  note ret = aggregate_returns [OF agg]
  have "fst ` set ?krs \<subseteq> fst ` set shape"
    by (force simp add: zip_keys_children)
  with build_object_keys [of ?krs "[]"] have keys: "fst ` set ?fs \<subseteq> fst ` set shape"
    by auto
  have dist: "distinct (map fst ?fs)"
    by (rule build_object_distinct) simp
  have defined: "JUndefined \<notin> snd ` set ?fs"
    by (rule build_object_defined) simp
  have at: "obj_get ?fs key = stored key (parse h fieldSchema (property_read h d key) (field_path p key))"
    if ds: "distinct (map fst shape)" and mem: "(key, fieldSchema) \<in> set shape"
    for key fieldSchema
  proof -
    have d': "distinct (map fst ?krs)"
      using ds by (simp add: zip_keys_children comp_def case_prod_beta)
    have m': "(key, parse h fieldSchema (property_read h d key) (field_path p key)) \<in> set ?krs"
      using mem by (force simp add: zip_keys_children)
    from build_object_get [OF d' m', of "[]"] show ?thesis by simp
  qed
  have vals: "parse h fieldSchema (property_read h d key) (field_path p key) = Inr (obj_get ?fs key) \<or>
      (\<exists>err. parse h fieldSchema (property_read h d key) (field_path p key) = Inl (VErr err) \<and>
         issues err = [] \<and> obj_get ?fs key = JUndefined)"
    if ds: "distinct (map fst shape)" and mem: "(key, fieldSchema) \<in> set shape"
      and np: "key \<noteq> ''__proto__''"
    for key fieldSchema
    using object_children_outcome [OF ret(2) ret(3) mem] at [OF ds mem] np by auto
  have sure: "parse h fieldSchema (property_read h d key) (field_path p key) = Inr (obj_get ?fs key)"
    if ds: "distinct (map fst shape)" and mem: "(key, fieldSchema) \<in> set shape"
      and np: "key \<noteq> ''__proto__''" and ok: "throws_no_ValidationError (ObjectSchema msg shape)"
    for key fieldSchema
  proof -
    from throws_no_ValidationError_field [OF ok mem] have f: "throws_no_ValidationError fieldSchema" .
    from vals [OF ds mem np] show ?thesis
    proof
      assume "\<exists>err. parse h fieldSchema (property_read h d key) (field_path p key) = Inl (VErr err) \<and>
         issues err = [] \<and> obj_get ?fs key = JUndefined"
      then obtain err where "parse h fieldSchema (property_read h d key) (field_path p key) = Inl (VErr err)"
        and "issues err = []"
        by blast
      with parse_error_anchored [OF f, of h "property_read h d key" "field_path p key" err]
      show ?thesis by (simp add: anchored_def)
    qed
  qed
  have c5: "distinct (map fst shape) \<longrightarrow>
      (\<forall>(key, fieldSchema) \<in> set shape. key \<noteq> ''__proto__'' \<longrightarrow>
         parse h fieldSchema (property_read h d key) (field_path p key) = Inr (obj_get ?fs key) \<or>
         (\<exists>err. parse h fieldSchema (property_read h d key) (field_path p key) = Inl (VErr err) \<and>
            issues err = [] \<and> obj_get ?fs key = JUndefined))"
  proof (intro impI ballI)
    fix x
    assume ds: "distinct (map fst shape)" and x: "x \<in> set shape"
    obtain key fieldSchema where kf: "x = (key, fieldSchema)" by (cases x)
    from vals [OF ds x [unfolded kf]]
    show "case x of (key, fieldSchema) \<Rightarrow> key \<noteq> ''__proto__'' \<longrightarrow>
         parse h fieldSchema (property_read h d key) (field_path p key) = Inr (obj_get ?fs key) \<or>
         (\<exists>err. parse h fieldSchema (property_read h d key) (field_path p key) = Inl (VErr err) \<and>
            issues err = [] \<and> obj_get ?fs key = JUndefined)"
      unfolding kf prod.case by blast
  qed
  have c6: "distinct (map fst shape) \<longrightarrow> throws_no_ValidationError (ObjectSchema msg shape) \<longrightarrow>
      (\<forall>(key, fieldSchema) \<in> set shape. key \<noteq> ''__proto__'' \<longrightarrow>
         parse h fieldSchema (property_read h d key) (field_path p key) = Inr (obj_get ?fs key))"
  proof (intro impI ballI)
    fix x
    assume ds: "distinct (map fst shape)" and x: "x \<in> set shape"
      and ok: "throws_no_ValidationError (ObjectSchema msg shape)"
    obtain key fieldSchema where kf: "x = (key, fieldSchema)" by (cases x)
    from sure [OF ds x [unfolded kf] _ ok]
    show "case x of (key, fieldSchema) \<Rightarrow> key \<noteq> ''__proto__'' \<longrightarrow>
         parse h fieldSchema (property_read h d key) (field_path p key) = Inr (obj_get ?fs key)"
      unfolding kf prod.case by blast
  qed
  from keys have c3: "set (map fst ?fs) \<subseteq> set (map fst shape)"
    by simp
  from defined have c4: "JUndefined \<notin> set (map snd ?fs)"
    by simp
  from ret(1) dist c3 c4 c5 c6 show ?thesis
    by blast
qed

theorem object_output_witness:
  "\<forall>h. parse h (ObjectSchema None
           [(''name'', StringSchema None []), (''age'', OptionalSchema None (NumberSchema None []))])
         (JObj [(''name'', JStr ''a''), (''extra'', JBool True)]) [] =
         Inr (JObj [(''name'', JStr ''a'')]) \<and>
       (\<exists>fs. JObj [(''name'', JStr ''a'')] = JObj fs \<and>
          set (map fst fs) \<subseteq> {''name'', ''age''} \<and> JUndefined \<notin> set (map snd fs))"
proof (intro allI conjI)
  fix h
  let ?shape = "[(''name'', StringSchema None []), (''age'', OptionalSchema None (NumberSchema None []))]"
  let ?d = "JObj [(''name'', JStr ''a''), (''extra'', JBool True)]"
  show eq: "parse h (ObjectSchema None ?shape) ?d [] = Inr (JObj [(''name'', JStr ''a'')])"
    by code_simp
  from object_output [OF eq]
  show "\<exists>fs. JObj [(''name'', JStr ''a'')] = JObj fs \<and>
          set (map fst fs) \<subseteq> {''name'', ''age''} \<and> JUndefined \<notin> set (map snd fs)"
    by auto
qed

section \<open>Absent keys\<close>









section \<open>Custom messages\<close>

lemma parse_union_None:
  "parse_union h ss d p = None \<longleftrightarrow> \<not> list_ex (\<lambda>s. returns (parse h s d p)) ss"
proof (induction ss)
  case Nil
  show ?case by simp
next
  case (Cons s ss)
  then show ?case by (cases "parse h s d p") simp_all
qed

lemma message_unchanged:
  "own_failure h s d p = None \<Longrightarrow> parse h (message_schema m s) d p = parse h s d p"
proof (cases s)
  case (UnionSchema msg schemas)
  assume "own_failure h s d p = None"
  with UnionSchema have "parse_union h schemas d p \<noteq> None"
    by (simp add: parse_union_None split: if_splits)
  with UnionSchema show ?thesis by auto
qed (auto simp add: StringSchema_parse_def CoercedStringSchema_parse_def NumberSchema_parse_def
      CoercedNumberSchema_parse_def BooleanSchema_parse_def CoercedBooleanSchema_parse_def
      EnumSchema_parse_def LiteralSchema_parse_def DateSchema_parse_def Let_def
      split: jsval.splits option.splits if_splits)

lemma message_replaces:
  "own_failure h s d p = Some dflt \<Longrightarrow>
     parse h (message_schema m s) d p =
       Inl (VErr (new_ValidationError [\<lparr> path = p, message = m \<rparr>]))"
proof (cases s)
  case (UnionSchema msg schemas)
  assume "own_failure h s d p = Some dflt"
  with UnionSchema have "parse_union h schemas d p = None"
    by (simp add: parse_union_None split: if_splits)
  with UnionSchema show ?thesis by (simp add: fail_def)
qed (auto simp add: StringSchema_parse_def CoercedStringSchema_parse_def NumberSchema_parse_def
      CoercedNumberSchema_parse_def BooleanSchema_parse_def CoercedBooleanSchema_parse_def
      EnumSchema_parse_def LiteralSchema_parse_def DateSchema_parse_def Let_def fail_def
      split: jsval.splits option.splits if_splits)

lemma default_message:
  "own_failure h s d p = Some dflt \<Longrightarrow> customMessage s = None \<Longrightarrow>
     parse h s d p = Inl (VErr (new_ValidationError [\<lparr> path = p, message = dflt \<rparr>]))"
proof (cases s)
  case (UnionSchema msg schemas)
  assume a: "own_failure h s d p = Some dflt" "customMessage s = None"
  with UnionSchema have "parse_union h schemas d p = None"
    by (simp add: parse_union_None split: if_splits)
  with UnionSchema a show ?thesis by (simp add: fail_def split: if_splits)
qed (auto simp add: StringSchema_parse_def CoercedStringSchema_parse_def NumberSchema_parse_def
      CoercedNumberSchema_parse_def BooleanSchema_parse_def CoercedBooleanSchema_parse_def
      EnumSchema_parse_def LiteralSchema_parse_def DateSchema_parse_def Let_def fail_def
      split: jsval.splits option.splits if_splits)

text \<open>
  Claim C9. Attaching a custom message to a schema changes what \<open>parse\<close> does only
  where the schema's own type or shape check fails: there the single issue at the
  current path carries the custom message in place of the default one. Wherever that
  check passes, \<open>parse\<close> is unchanged, so that the messages of failing constraints
  and of failing children are what they were.
\<close>

theorem custom_message_scope:
  "(own_failure h s d p = None \<longrightarrow> parse h (message_schema m s) d p = parse h s d p) \<and>
   (\<forall>dflt. own_failure h s d p = Some dflt \<longrightarrow>
      parse h (message_schema m s) d p =
        Inl (VErr (new_ValidationError [\<lparr> path = p, message = m \<rparr>])) \<and>
      (customMessage s = None \<longrightarrow>
         parse h s d p = Inl (VErr (new_ValidationError [\<lparr> path = p, message = dflt \<rparr>]))))"
  using message_unchanged [of h s d p m] message_replaces [of h s d p _ m]
    default_message [of h s d p]
  by blast

theorem custom_message_scope_witness:
  "\<forall>h. parse h (message_schema ''X'' (StringSchema None [SMin (Fin 3)])) (JNum (Fin 42)) [] =
         Inl (VErr (new_ValidationError [\<lparr> path = [], message = ''X'' \<rparr>])) \<and>
       parse h (message_schema ''X'' (StringSchema None [SMin (Fin 3)])) (JStr ''ab'') [] =
         Inl (VErr (new_ValidationError
           [\<lparr> path = [], message = ''String must be at least 3 characters'' \<rparr>])) \<and>
       parse h (message_schema ''X'' (ArraySchema None [] (StringSchema None []))) (JArr [JNum (Fin 1)]) [] =
         Inl (VErr (new_ValidationError [\<lparr> path = ''[0]'', message = ''Expected string'' \<rparr>]))"
proof (intro allI conjI)
  fix h
  let ?s = "StringSchema None [SMin (Fin 3)]"
  have "own_failure h ?s (JNum (Fin 42)) [] = Some ''Expected string''"
    by simp
  with custom_message_scope [where h = h and s = ?s and d = "JNum (Fin 42)" and p = "[]" and m = "''X''"]
  show "parse h (message_schema ''X'' ?s) (JNum (Fin 42)) [] =
         Inl (VErr (new_ValidationError [\<lparr> path = [], message = ''X'' \<rparr>]))"
    by blast
  have "own_failure h ?s (JStr ''ab'') [] = None"
    by simp
  with custom_message_scope [where h = h and s = ?s and d = "JStr ''ab''" and p = "[]" and m = "''X''"]
  have "parse h (message_schema ''X'' ?s) (JStr ''ab'') [] = parse h ?s (JStr ''ab'') []"
    by blast
  also have "\<dots> = Inl (VErr (new_ValidationError
           [\<lparr> path = [], message = ''String must be at least 3 characters'' \<rparr>]))"
    by code_simp
  finally show "parse h (message_schema ''X'' ?s) (JStr ''ab'') [] =
         Inl (VErr (new_ValidationError
           [\<lparr> path = [], message = ''String must be at least 3 characters'' \<rparr>]))" .
  let ?a = "ArraySchema None [] (StringSchema None [])"
  have "own_failure h ?a (JArr [JNum (Fin 1)]) [] = None"
    by simp
  with custom_message_scope [where h = h and s = ?a and d = "JArr [JNum (Fin 1)]" and p = "[]"
      and m = "''X''"]
  have "parse h (message_schema ''X'' ?a) (JArr [JNum (Fin 1)]) [] = parse h ?a (JArr [JNum (Fin 1)]) []"
    by blast
  also have "\<dots> = Inl (VErr (new_ValidationError [\<lparr> path = ''[0]'', message = ''Expected string'' \<rparr>]))"
    by code_simp
  finally show "parse h (message_schema ''X'' ?a) (JArr [JNum (Fin 1)]) [] =
         Inl (VErr (new_ValidationError [\<lparr> path = ''[0]'', message = ''Expected string'' \<rparr>]))" .
qed

end
